theory Spec2Isabelle
  imports Complex_Main "HOL-Library.Sublist"
begin

section \<open>Python values\<close>

text \<open>
  The program is \<^verbatim>\<open>src/data/compare_models.py\<close>. Its data are Python strings, dictionaries
  and the dynamically typed values stored in them. Text is modelled as \<^typ>\<open>string\<close>: a
  character is a code point from U+0000 to U+00FF, and the character classes (white space,
  decimal digits, letter case) are those Python gives these code points. Text with code points
  beyond U+00FF is outside the model.

  Every exception the code can raise is a value of \<open>error\<close>; a function that can raise returns
  \<open>error + 'a\<close>, with \<open>Inl\<close> for the exception.
\<close>

datatype error = ValueError | IndexError | TypeError | OverflowError | StopIteration

definition bind_err :: "error + 'a \<Rightarrow> ('a \<Rightarrow> error + 'b) \<Rightarrow> error + 'b" where
  "bind_err m f = (case m of Inl e \<Rightarrow> Inl e | Inr x \<Rightarrow> f x)"

text \<open>
  A Python float is an IEEE double. A finite double is kept as its sign and the exact rational
  magnitude it denotes (so that \<open>-0.0\<close> exists); the other doubles are the two infinities and
  NaN.
\<close>

datatype pyfloat = Finite bool rat | Infinity bool | NaN

datatype pyval = VInt int | VFloat pyfloat | VStr string

text \<open>
  A \<^verbatim>\<open>dict\<close> keeps its keys in insertion order; assigning to a key that is present keeps
  the key's place. This is an association list without repeated keys.
\<close>

type_synonym ('k, 'v) dict = "('k \<times> 'v) list"

type_synonym stats = "(string, pyval) dict"

fun dict_set :: "('k, 'v) dict \<Rightarrow> 'k \<Rightarrow> 'v \<Rightarrow> ('k, 'v) dict" where
  "dict_set [] k v = [(k, v)]"
| "dict_set ((k', v') # d) k v = (if k' = k then (k, v) # d else (k', v') # dict_set d k v)"

definition dict_get :: "('k, 'v) dict \<Rightarrow> 'k \<Rightarrow> 'v option" where
  "dict_get d k = map_of d k"

definition dict_get_default :: "('k, 'v) dict \<Rightarrow> 'k \<Rightarrow> 'v \<Rightarrow> 'v" where
  "dict_get_default d k v = (case map_of d k of None \<Rightarrow> v | Some w \<Rightarrow> w)"

definition dict_keys :: "('k, 'v) dict \<Rightarrow> 'k list" where
  "dict_keys d = map fst d"

section \<open>String operations of the Python library\<close>

text \<open>
  \<^verbatim>\<open>c.isspace()\<close>, the white space that \<^verbatim>\<open>str.strip\<close> removes: the ASCII controls
  9 to 13 and 28 to 31, the space, U+0085 and U+00A0.
\<close>

definition py_isspace :: "char \<Rightarrow> bool" where
  "py_isspace c =
     (let n = (of_char c :: nat)
      in (9 \<le> n \<and> n \<le> 13) \<or> (28 \<le> n \<and> n \<le> 32) \<or> n = 133 \<or> n = 160)"

text \<open>
  The white space that \<^verbatim>\<open>int\<close> and \<^verbatim>\<open>float\<close> skip around a literal. They first turn
  the white space beyond ASCII (here U+0085 and U+00A0) into spaces and then skip the white
  space of C: the controls 9 to 13 and the space. The controls 28 to 31 are not skipped.
\<close>

definition num_isspace :: "char \<Rightarrow> bool" where
  "num_isspace c =
     (let n = (of_char c :: nat) in (9 \<le> n \<and> n \<le> 13) \<or> n = 32 \<or> n = 133 \<or> n = 160)"

definition num_strip :: "string \<Rightarrow> string" where
  "num_strip s = rev (dropWhile num_isspace (rev (dropWhile num_isspace s)))"

definition is_digit :: "char \<Rightarrow> bool" where
  "is_digit c = (let n = (of_char c :: nat) in 48 \<le> n \<and> n \<le> 57)"

definition digit_val :: "char \<Rightarrow> nat" where
  "digit_val c = (of_char c :: nat) - 48"

definition digit_char :: "nat \<Rightarrow> char" where
  "digit_char n = ''0123456789'' ! (n mod 10)"

text \<open>\<^verbatim>\<open>s.strip()\<close>\<close>

definition strip :: "string \<Rightarrow> string" where
  "strip s = rev (dropWhile py_isspace (rev (dropWhile py_isspace s)))"

text \<open>\<^verbatim>\<open>s.split(c)\<close> for a separator of one character: never an empty list.\<close>

fun split_char :: "char \<Rightarrow> string \<Rightarrow> string list" where
  "split_char c [] = [[]]"
| "split_char c (x # xs) =
     (if x = c then [] # split_char c xs
      else (case split_char c xs of [] \<Rightarrow> [[x]] | p # ps \<Rightarrow> (x # p) # ps))"

text \<open>\<^verbatim>\<open>sub in s\<close>\<close>

fun contains :: "string \<Rightarrow> string \<Rightarrow> bool" where
  "contains sub [] = (sub = [])"
| "contains sub (x # xs) = (prefix sub (x # xs) \<or> contains sub xs)"

text \<open>\<^verbatim>\<open>s.replace(c, r)\<close> for a pattern of one character.\<close>

definition replace_char :: "char \<Rightarrow> string \<Rightarrow> string \<Rightarrow> string" where
  "replace_char c r s = concat (map (\<lambda>x. if x = c then r else [x]) s)"

text \<open>
  \<^verbatim>\<open>s.lower()\<close>: the capitals A to Z, and U+00C0 to U+00DE without the multiplication sign
  U+00D7, go to the letter 32 places further.
\<close>

definition lower_char :: "char \<Rightarrow> char" where
  "lower_char c =
     (let n = (of_char c :: nat)
      in if (65 \<le> n \<and> n \<le> 90) \<or> (192 \<le> n \<and> n \<le> 222 \<and> n \<noteq> 215)
         then char_of (n + 32) else c)"

definition lower :: "string \<Rightarrow> string" where
  "lower s = map lower_char s"

text \<open>The lower case of the ASCII letters alone, as the number parser compares names.\<close>

definition ascii_lower_char :: "char \<Rightarrow> char" where
  "ascii_lower_char c =
     (let n = (of_char c :: nat) in if 65 \<le> n \<and> n \<le> 90 then char_of (n + 32) else c)"

text \<open>
  \<^verbatim>\<open>s.upper()\<close> for ASCII text. The upper case of some letters beyond ASCII is not one
  character of the model (U+00FF, U+00B5, U+00DF), so the statements that read an upper-cased
  name are made for ASCII names, as the model identifiers of \<^verbatim>\<open>main\<close> are.
\<close>

definition is_ascii :: "string \<Rightarrow> bool" where
  "is_ascii s = list_all (\<lambda>c. (of_char c :: nat) < 128) s"

definition upper_char :: "char \<Rightarrow> char" where
  "upper_char c = (let n = (of_char c :: nat) in if 97 \<le> n \<and> n \<le> 122 then char_of (n - 32) else c)"

definition upper :: "string \<Rightarrow> string" where
  "upper s = map upper_char s"

text \<open>\<^verbatim>\<open>s.rfind(sub)\<close>: the last index where \<open>sub\<close> starts, or \<open>-1\<close>.\<close>

fun rfind_from :: "string \<Rightarrow> string \<Rightarrow> nat \<Rightarrow> int \<Rightarrow> int" where
  "rfind_from sub [] i found = (if sub = [] then int i else found)"
| "rfind_from sub (x # xs) i found =
     rfind_from sub xs (Suc i) (if prefix sub (x # xs) then int i else found)"

definition rfind :: "string \<Rightarrow> string \<Rightarrow> int" where
  "rfind s sub = rfind_from sub s 0 (- 1)"

text \<open>\<^verbatim>\<open>s[k:]\<close>; a negative \<open>k\<close> counts from the end.\<close>

definition slice_from :: "string \<Rightarrow> int \<Rightarrow> string" where
  "slice_from s k = (if 0 \<le> k then drop (nat k) s else drop (length s - nat (- k)) s)"

text \<open>\<^verbatim>\<open>xs[i]\<close> for \<open>i \<ge> 0\<close>\<close>

definition py_index :: "'a list \<Rightarrow> nat \<Rightarrow> error + 'a" where
  "py_index xs i = (if i < length xs then Inr (xs ! i) else Inl IndexError)"

text \<open>\<^verbatim>\<open>s.ljust(w)\<close>, the padding of the format specification \<^verbatim>\<open>:<w\<close>.\<close>

definition ljust :: "nat \<Rightarrow> string \<Rightarrow> string" where
  "ljust w s = s @ replicate (w - length s) (CHR '' '')"

fun show_nat :: "nat \<Rightarrow> string" where
  "show_nat n = (if n < 10 then [digit_char n] else show_nat (n div 10) @ [digit_char (n mod 10)])"

definition show_int :: "int \<Rightarrow> string" where
  "show_int i = (if i < 0 then CHR ''-'' # show_nat (nat (- i)) else show_nat (nat i))"

definition nat_of_digits :: "string \<Rightarrow> nat" where
  "nat_of_digits ds = foldl (\<lambda>a c. 10 * a + digit_val c) 0 ds"

subsection \<open>\<^verbatim>\<open>int(s)\<close>\<close>

text \<open>
  White space around the literal is skipped (\<open>num_strip\<close>), a sign may precede the digits, and single
  underscores may stand between digits. A literal of more than 4300 digits is refused (the
  default limit of CPython 3.11). The scan below is the digit loop of the interpreter: \<open>prev\<close>
  is the character before.
\<close>

fun digit_run :: "char \<Rightarrow> string \<Rightarrow> bool" where
  "digit_run prev [] = (prev \<noteq> CHR ''_'')"
| "digit_run prev (c # cs) =
     (if c = CHR ''_'' then prev \<noteq> CHR ''_'' \<and> digit_run c cs
      else is_digit c \<and> digit_run c cs)"

definition split_sign :: "string \<Rightarrow> bool \<times> string" where
  "split_sign t = (case t of [] \<Rightarrow> (False, [])
     | c # r \<Rightarrow> if c = CHR ''+'' then (False, r) else if c = CHR ''-'' then (True, r) else (False, t))"

definition py_int :: "string \<Rightarrow> error + int" where
  "py_int s =
     (let (neg, body) = split_sign (num_strip s) in
      if body \<noteq> [] \<and> hd body \<noteq> CHR ''_'' \<and> digit_run (CHR ''0'') body
         \<and> length (filter is_digit body) \<le> 4300
      then Inr ((if neg then - 1 else 1) * int (nat_of_digits (filter is_digit body)))
      else Inl ValueError)"

subsection \<open>\<^verbatim>\<open>float(s)\<close>\<close>

definition pow2 :: "int \<Rightarrow> rat" where
  "pow2 k = (if 0 \<le> k then 2 ^ nat k else 1 / 2 ^ nat (- k))"

definition pow10 :: "int \<Rightarrow> rat" where
  "pow10 k = (if 0 \<le> k then 10 ^ nat k else 1 / 10 ^ nat (- k))"

fun bitlen :: "nat \<Rightarrow> nat" where
  "bitlen n = (if n = 0 then 0 else Suc (bitlen (n div 2)))"

text \<open>
  \<open>\<lfloor>log\<^sub>2 a\<rfloor>\<close> for a positive rational: from the bit length of \<open>\<lfloor>a\<rfloor>\<close> when
  \<open>a \<ge> 1\<close>, and otherwise from the least power of two that is not below \<open>1 / a\<close>.
\<close>

definition floor_log2 :: "rat \<Rightarrow> int" where
  "floor_log2 a =
     (if 1 \<le> a then int (bitlen (nat \<lfloor>a\<rfloor>)) - 1
      else - int (bitlen (nat (\<lceil>1 / a\<rceil> - 1))))"

definition round_half_even :: "rat \<Rightarrow> int" where
  "round_half_even x =
     (let f = \<lfloor>x\<rfloor>; r = x - of_int f
      in if r < 1 / 2 then f else if 1 / 2 < r then f + 1 else if even f then f else f + 1)"

text \<open>
  The double nearest to a non-negative rational (ties to even): 53 significant bits, the
  spacing never below \<open>2\<^sup>-\<^sup>1\<^sup>0\<^sup>7\<^sup>4\<close>, and overflow to infinity from \<open>2\<^sup>1\<^sup>0\<^sup>2\<^sup>4\<close>.
\<close>

definition round_double :: "bool \<Rightarrow> rat \<Rightarrow> pyfloat" where
  "round_double neg a =
     (if a = 0 then Finite neg 0
      else let q = max (floor_log2 a - 52) (- 1074);
               v = of_int (round_half_even (a / pow2 q)) * pow2 q
           in if pow2 1024 \<le> v then Infinity neg else Finite neg v)"

text \<open>
  Underscores in a float literal: each one stands after a digit and before a digit (the check
  of the interpreter, \<open>prev\<close> being the character before, initially NUL).
\<close>

fun underscores_ok :: "char \<Rightarrow> string \<Rightarrow> bool" where
  "underscores_ok prev [] = (prev \<noteq> CHR ''_'')"
| "underscores_ok prev (c # cs) =
     (if c = CHR ''_'' then is_digit prev \<and> underscores_ok c cs
      else (if prev = CHR ''_'' then is_digit c else True) \<and> underscores_ok c cs)"

text \<open>The exponent part: empty, or \<open>e\<close>/\<open>E\<close>, an optional sign and at least one digit.\<close>

definition parse_exponent :: "string \<Rightarrow> int option" where
  "parse_exponent r =
     (case r of [] \<Rightarrow> Some 0
      | c # r' \<Rightarrow>
          if c = CHR ''e'' \<or> c = CHR ''E'' then
            (let (neg, ds) = split_sign r' in
             if ds \<noteq> [] \<and> list_all is_digit ds
             then Some ((if neg then - 1 else 1) * int (nat_of_digits ds)) else None)
          else None)"

definition py_float :: "string \<Rightarrow> error + pyfloat" where
  "py_float s =
     (let t = num_strip s in
      if \<not> underscores_ok (CHR 0x00) t then Inl ValueError
      else let (neg, r) = split_sign (filter (\<lambda>c. c \<noteq> CHR ''_'') t);
               name = map ascii_lower_char r in
        if name = ''inf'' \<or> name = ''infinity'' then Inr (Infinity neg)
        else if name = ''nan'' then Inr NaN
        else let ip = takeWhile is_digit r; r1 = dropWhile is_digit r;
                 fp = (case r1 of [] \<Rightarrow> [] | c # r1' \<Rightarrow>
                         if c = CHR ''.'' then takeWhile is_digit r1' else []);
                 r2 = (case r1 of [] \<Rightarrow> [] | c # r1' \<Rightarrow>
                         if c = CHR ''.'' then dropWhile is_digit r1' else r1)
             in if ip @ fp = [] then Inl ValueError
                else (case parse_exponent r2 of None \<Rightarrow> Inl ValueError
                      | Some ex \<Rightarrow>
                          Inr (round_double neg
                                (of_nat (nat_of_digits (ip @ fp)) * pow10 (ex - int (length fp))))))"

subsection \<open>The format specification \<^verbatim>\<open>.1f\<close>\<close>

text \<open>
  One digit after the point, the exact value of the double rounded correctly (ties to even);
  the infinities and NaN are printed by name.
\<close>

definition format_float_1f :: "pyfloat \<Rightarrow> string" where
  "format_float_1f x =
     (case x of
        Finite neg m \<Rightarrow>
          (let n = nat (round_half_even (m * 10)) in
           (if neg then ''-'' else '''') @ show_nat (n div 10) @ ''.'' @ show_nat (n mod 10))
      | Infinity neg \<Rightarrow> (if neg then ''-inf'' else ''inf'')
      | NaN \<Rightarrow> ''nan'')"

text \<open>
  \<^verbatim>\<open>f"{v:.1f}"\<close> for a value of any type: an \<^verbatim>\<open>int\<close> is converted to a float first
  (OverflowError when it is too large), a \<^verbatim>\<open>str\<close> has no format code \<open>f\<close> (ValueError).
\<close>

definition float_of_int :: "int \<Rightarrow> error + pyfloat" where
  "float_of_int i =
     (case round_double (i < 0) (of_int \<bar>i\<bar>) of
        Infinity _ \<Rightarrow> Inl OverflowError
      | x \<Rightarrow> Inr x)"

definition format_1f :: "pyval \<Rightarrow> error + string" where
  "format_1f v =
     (case v of
        VFloat x \<Rightarrow> Inr (format_float_1f x)
      | VInt i \<Rightarrow> (case float_of_int i of Inl e \<Rightarrow> Inl e | Inr x \<Rightarrow> Inr (format_float_1f x))
      | VStr _ \<Rightarrow> Inl ValueError)"

section \<open>The statistics extractor\<close>

definition section_marker :: string where
  "section_marker = ''Results Summary for CNN Model Architecture''"

definition runtime_marker :: string where
  "runtime_marker = ''Total Elapsed Runtime''"

text \<open>
  The \<^verbatim>\<open>try\<close> block of a count line: \<^verbatim>\<open>stats[key] = int(parts[1].strip())\<close>, any
  exception being passed over.
\<close>

definition store_count :: "stats \<Rightarrow> string \<Rightarrow> string list \<Rightarrow> stats" where
  "store_count st key parts =
     (case py_index parts 1 of Inl _ \<Rightarrow> st
      | Inr p \<Rightarrow> (case py_int (strip p) of Inl _ \<Rightarrow> st | Inr n \<Rightarrow> dict_set st key (VInt n)))"

text \<open>
  What the body of the loop does with one line: go on to the next line with the flag
  \<open>in_results_section\<close> and the statistics, or leave the loop (\<^verbatim>\<open>break\<close>).
\<close>

datatype flow = Next bool stats | Stop stats

definition process_line :: "bool \<Rightarrow> stats \<Rightarrow> string \<Rightarrow> error + flow" where
  "process_line in_results_section st line =
     (if contains section_marker line then Inr (Next True st)
      else if in_results_section \<and> contains ''N Images'' line \<and> contains '':'' line then
        (let parts = split_char (CHR '':'') line in
         if length parts = 2 then Inr (Next in_results_section (store_count st ''n_images'' parts))
         else Inr (Next in_results_section st))
      else if in_results_section \<and> contains ''N Dog Images'' line \<and> contains '':'' line then
        (let parts = split_char (CHR '':'') line in
         if length parts = 2 then Inr (Next in_results_section (store_count st ''n_dogs'' parts))
         else Inr (Next in_results_section st))
      else if in_results_section \<and> contains ''N Not-Dog Images'' line \<and> contains '':'' line then
        (let parts = split_char (CHR '':'') line in
         if length parts = 2 then Inr (Next in_results_section (store_count st ''n_notdogs'' parts))
         else Inr (Next in_results_section st))
      else if in_results_section \<and> contains '':'' line \<and> contains ''%'' line then
        (let parts = split_char (CHR '':'') line in
         if length parts = 2 then
           (case py_index parts 0 of Inl e \<Rightarrow> Inl e
            | Inr p0 \<Rightarrow>
              (case py_index parts 1 of Inl e \<Rightarrow> Inl e
               | Inr p1 \<Rightarrow>
                 (let key = lower (replace_char (CHR '' '') ''_'' (strip p0));
                      val = replace_char (CHR ''%'') '''' (strip p1)
                  in case py_float val of
                       Inr x \<Rightarrow> Inr (Next in_results_section (dict_set st key (VFloat x)))
                     | Inl _ \<Rightarrow> Inr (Next in_results_section (dict_set st key (VStr val))))))
         else Inr (Next in_results_section st))
      else if contains runtime_marker line then
        (let runtime_start = rfind line '': '' + 2 in
         if 1 < runtime_start
         then Inr (Stop (dict_set st ''runtime'' (VStr (strip (slice_from line runtime_start)))))
         else Inr (Stop st))
      else Inr (Next in_results_section st))"

definition flow_stats :: "flow \<Rightarrow> stats" where
  "flow_stats f = (case f of Next in_results_section st \<Rightarrow> st | Stop st \<Rightarrow> st)"

text \<open>
  The loop over the lines, from a state of the loop: once the loop is left, the remaining
  lines are not looked at.
\<close>

fun scan_lines :: "flow \<Rightarrow> string list \<Rightarrow> error + flow" where
  "scan_lines f [] = Inr f"
| "scan_lines f (line # rest) =
     (case f of
        Stop st \<Rightarrow> Inr (Stop st)
      | Next in_results_section st \<Rightarrow>
          (case process_line in_results_section st line of
             Inl e \<Rightarrow> Inl e
           | Inr f' \<Rightarrow> scan_lines f' rest))"

definition extract_statistics :: "string \<Rightarrow> error + stats" where
  "extract_statistics output_text =
     (case scan_lines (Next False []) (split_char (CHR 0x0A) output_text) of
        Inl e \<Rightarrow> Inl e
      | Inr f \<Rightarrow> Inr (flow_stats f))"

section \<open>The results collection\<close>

text \<open>
  A run result is absent (\<^verbatim>\<open>None\<close>) or a mapping of statistics. The results collection is
  the dictionary \<^verbatim>\<open>all_results\<close>, from the model identifier to the run result, in the order
  of insertion.
\<close>

type_synonym results = "(string, stats option) dict"

text \<open>The truth value of a run result: \<^verbatim>\<open>None\<close> and the empty dictionary are false.\<close>

definition truthy :: "stats option \<Rightarrow> bool" where
  "truthy r = (case r of None \<Rightarrow> False | Some d \<Rightarrow> d \<noteq> [])"

text \<open>
  The loop of \<^verbatim>\<open>main\<close> over \<^verbatim>\<open>['vgg', 'alexnet', 'resnet']\<close>. The runner is the
  environment: \<open>run model\<close> is the captured output, or \<open>None\<close> when the run failed. An empty
  output is false as well and is recorded as absent.
\<close>

definition models :: "string list" where
  "models = [''vgg'', ''alexnet'', ''resnet'']"

fun collect_results :: "(string \<Rightarrow> string option) \<Rightarrow> results \<Rightarrow> string list \<Rightarrow> error + results" where
  "collect_results run all_results [] = Inr all_results"
| "collect_results run all_results (model # rest) =
     (case run model of
        None \<Rightarrow> collect_results run (dict_set all_results model None) rest
      | Some output \<Rightarrow>
          if output \<noteq> [] then
            bind_err (extract_statistics output)
              (\<lambda>st. collect_results run (dict_set all_results model (Some st)) rest)
          else collect_results run (dict_set all_results model None) rest)"

section \<open>The console reporter\<close>

text \<open>
  \<^verbatim>\<open>str(i)\<close> for an \<^verbatim>\<open>int\<close>: the decimal digits, and a ValueError beyond 4300 digits
  (the default limit of CPython 3.11 on the conversion).
\<close>

definition py_str_int :: "int \<Rightarrow> error + string" where
  "py_str_int i = (if 4300 < length (show_nat (nat \<bar>i\<bar>)) then Inl ValueError else Inr (show_int i))"

text \<open>
  One cell of a row: \<^verbatim>\<open>v = stats.get(key, 'N/A')\<close>, then
  \<^verbatim>\<open>f"{v:.1f}%" if isinstance(v, float) else str(v)\<close>.
\<close>

definition console_cell :: "stats \<Rightarrow> string \<Rightarrow> error + string" where
  "console_cell st key =
     (case dict_get_default st key (VStr ''N/A'') of
        VFloat x \<Rightarrow> Inr (format_float_1f x @ ''%'')
      | VInt i \<Rightarrow> py_str_int i
      | VStr s \<Rightarrow> Inr s)"

definition console_keys :: "string list" where
  "console_keys = [''pct_correct_dogs'', ''pct_correct_breed'', ''pct_correct_notdogs'', ''pct_match'']"

text \<open>A list made item by item, the first exception ending it.\<close>

fun map_err :: "('a \<Rightarrow> error + 'b) \<Rightarrow> 'a list \<Rightarrow> error + 'b list" where
  "map_err f [] = Inr []"
| "map_err f (x # xs) =
     (case f x of
        Inl e \<Rightarrow> Inl e
      | Inr y \<Rightarrow> (case map_err f xs of Inl e \<Rightarrow> Inl e | Inr ys \<Rightarrow> Inr (y # ys)))"

text \<open>The texts of the four metric columns of one row, in the order dogs, breeds, not-dogs, match.\<close>

definition console_cells :: "stats option \<Rightarrow> error + string list" where
  "console_cells r =
     (case r of
        Some st \<Rightarrow> if st \<noteq> [] then map_err (console_cell st) console_keys
                   else Inr (replicate 4 ''ERROR'')
      | None \<Rightarrow> Inr (replicate 4 ''ERROR''))"

text \<open>The printed row: the model in a field of 10, each cell in a field of 12.\<close>

definition console_line :: "string \<Rightarrow> string list \<Rightarrow> string" where
  "console_line model cells =
     ljust 10 (upper model) @ concat (map (\<lambda>c. '' '' @ ljust 12 c) cells)"

definition console_row :: "string \<times> stats option \<Rightarrow> error + string" where
  "console_row item =
     bind_err (console_cells (snd item)) (\<lambda>cells. Inr (console_line (fst item) cells))"

definition console_header :: "string list" where
  "console_header =
     [CHR 0x0A # replicate 80 (CHR ''=''),
      ''RESULTS COMPARISON TABLE'',
      replicate 80 (CHR ''=''),
      ljust 10 ''Model'' @ '' '' @ ljust 12 ''% Dogs'' @ '' '' @ ljust 12 ''% Breeds'' @ '' ''
        @ ljust 12 ''% Not-Dogs'' @ '' '' @ ljust 12 ''% Match'',
      replicate 60 (CHR ''-'')]"

text \<open>
  The lines printed, one per call of \<^verbatim>\<open>print\<close>, when the function returns; the exception
  when a row raises one (the lines printed before it are not kept).
\<close>

definition create_console_results_table :: "results \<Rightarrow> error + string list" where
  "create_console_results_table all_results =
     bind_err (map_err console_row all_results) (\<lambda>rows. Inr (console_header @ rows))"

section \<open>The analyzer\<close>

definition safe_get :: "stats option \<Rightarrow> string \<Rightarrow> pyval" where
  "safe_get r key = (if truthy r then (case r of Some st \<Rightarrow> dict_get_default st key (VInt 0) | None \<Rightarrow> VInt 0)
                     else VInt 0)"

text \<open>
  The comparison \<^verbatim>\<open>a > b\<close>. Numbers are compared by their exact values, and NaN is not
  greater than anything, nor anything greater than NaN. Strings are compared
  lexicographically by character code. A string against a number is a TypeError.
\<close>

definition signed :: "bool \<Rightarrow> rat \<Rightarrow> rat" where
  "signed neg m = (if neg then - m else m)"

definition float_gt :: "pyfloat \<Rightarrow> pyfloat \<Rightarrow> bool" where
  "float_gt a b =
     (case a of
        NaN \<Rightarrow> False
      | Infinity s \<Rightarrow> (case b of NaN \<Rightarrow> False | Infinity t \<Rightarrow> \<not> s \<and> t | Finite t n \<Rightarrow> \<not> s)
      | Finite s m \<Rightarrow> (case b of NaN \<Rightarrow> False | Infinity t \<Rightarrow> t | Finite t n \<Rightarrow> signed t n < signed s m))"

fun str_gt :: "string \<Rightarrow> string \<Rightarrow> bool" where
  "str_gt [] ys = False"
| "str_gt (x # xs) [] = True"
| "str_gt (x # xs) (y # ys) = (if x = y then str_gt xs ys else (of_char y :: nat) < of_char x)"

definition exact_of_int :: "int \<Rightarrow> pyfloat" where
  "exact_of_int i = Finite (i < 0) (of_int \<bar>i\<bar>)"

definition py_gt :: "pyval \<Rightarrow> pyval \<Rightarrow> error + bool" where
  "py_gt a b =
     (case a of
        VStr s \<Rightarrow> (case b of VStr t \<Rightarrow> Inr (str_gt s t) | _ \<Rightarrow> Inl TypeError)
      | VInt i \<Rightarrow> (case b of VStr t \<Rightarrow> Inl TypeError
                    | VInt j \<Rightarrow> Inr (j < i)
                    | VFloat y \<Rightarrow> Inr (float_gt (exact_of_int i) y))
      | VFloat x \<Rightarrow> (case b of VStr t \<Rightarrow> Inl TypeError
                      | VInt j \<Rightarrow> Inr (float_gt x (exact_of_int j))
                      | VFloat y \<Rightarrow> Inr (float_gt x y)))"

text \<open>
  \<^verbatim>\<open>max(items, key=key)\<close>: the first item is the maximum so far; a later item replaces it
  only when its key is greater. An empty sequence is a ValueError.
\<close>

fun max_loop :: "('a \<Rightarrow> pyval) \<Rightarrow> 'a \<Rightarrow> pyval \<Rightarrow> 'a list \<Rightarrow> error + 'a" where
  "max_loop key maxitem maxval [] = Inr maxitem"
| "max_loop key maxitem maxval (item # rest) =
     (case py_gt (key item) maxval of
        Inl e \<Rightarrow> Inl e
      | Inr True \<Rightarrow> max_loop key item (key item) rest
      | Inr False \<Rightarrow> max_loop key maxitem maxval rest)"

definition py_max :: "('a \<Rightarrow> pyval) \<Rightarrow> 'a list \<Rightarrow> error + 'a" where
  "py_max key items = (case items of [] \<Rightarrow> Inl ValueError | item # rest \<Rightarrow> max_loop key item (key item) rest)"

record analysis =
  best_dogs :: "string \<times> stats option"
  best_breeds :: "string \<times> stats option"
  best_notdogs :: "string \<times> stats option"
  best_overall :: "string \<times> stats option"
  analysis_printed :: "string list"

definition best_line :: "string \<Rightarrow> string \<times> stats option \<Rightarrow> string \<Rightarrow> error + string" where
  "best_line label best key =
     bind_err (format_1f (safe_get (snd best) key))
       (\<lambda>pct. Inr (label @ upper (fst best) @ '' ('' @ pct @ ''%)''))"

definition analyze_results :: "results \<Rightarrow> error + analysis" where
  "analyze_results all_results =
     bind_err (py_max (\<lambda>x. safe_get (snd x) ''pct_correct_dogs'') all_results) (\<lambda>bd.
     bind_err (py_max (\<lambda>x. safe_get (snd x) ''pct_correct_breed'') all_results) (\<lambda>bb.
     bind_err (py_max (\<lambda>x. safe_get (snd x) ''pct_correct_notdogs'') all_results) (\<lambda>bn.
     bind_err (py_max (\<lambda>x. safe_get (snd x) ''pct_match'') all_results) (\<lambda>bo.
     bind_err (best_line ''Best at identifying dogs: '' bd ''pct_correct_dogs'') (\<lambda>l1.
     bind_err (best_line ''Best at breed classification: '' bb ''pct_correct_breed'') (\<lambda>l2.
     bind_err (best_line ''Best at identifying non-dogs: '' bn ''pct_correct_notdogs'') (\<lambda>l3.
     bind_err (best_line ''Best overall match rate: '' bo ''pct_match'') (\<lambda>l4.
       Inr \<lparr>best_dogs = bd, best_breeds = bb, best_notdogs = bn, best_overall = bo,
            analysis_printed =
              [CHR 0x0A # replicate 80 (CHR ''=''), ''ANALYSIS'', replicate 80 (CHR ''=''),
               l1, l2, l3, l4,
               CHR 0x0A # ''RECOMMENDED MODEL: '' @ upper (fst bo)]\<rparr>))))))))"

section \<open>The visual reporter\<close>

text \<open>
  The plotting library is not modelled. The figure is kept as the data handed to it: the rows
  of the summary table (the label, and the value whose \<^verbatim>\<open>str()\<close> is the second cell), the
  rows of the main table (six cells each) and the file name. Colours and fonts are left out,
  and so is what the library does with the data.
\<close>

record figure =
  summary_data :: "(string \<times> pyval) list"
  table_data :: "pyval list list"
  filename :: string

record visual_result =
  visual_printed :: "string list"
  artifact :: "figure option"
  returned :: "string option"

definition display_models :: "string list" where
  "display_models = [''ResNet'', ''AlexNet'', ''VGG'']"

text \<open>
  \<^verbatim>\<open>str(v)\<close> of a summary count: only its exception is kept, the ValueError of an
  \<^verbatim>\<open>int\<close> beyond the digit limit.
\<close>

definition summary_cell :: "string \<Rightarrow> pyval \<Rightarrow> error + string \<times> pyval" where
  "summary_cell label v =
     (case v of
        VInt i \<Rightarrow> bind_err (py_str_int i) (\<lambda>s. Inr (label, v))
      | _ \<Rightarrow> Inr (label, v))"

definition error_row :: "string \<Rightarrow> pyval list" where
  "error_row model = [VStr model, VStr ''ERROR'', VStr ''ERROR'', VStr ''ERROR'', VStr ''ERROR'', VStr ''ERROR'']"

definition pct_cell :: "stats \<Rightarrow> string \<Rightarrow> error + pyval" where
  "pct_cell st key = bind_err (format_1f (dict_get_default st key (VInt 0))) (\<lambda>s. Inr (VStr (s @ ''%'')))"

text \<open>The body of the loop over the display order: the row of one model.\<close>

definition table_row :: "results \<Rightarrow> string \<Rightarrow> error + pyval list" where
  "table_row all_results model =
     (let model_key = lower model in
      case map_of all_results model_key of
        Some (Some st) \<Rightarrow>
          if st \<noteq> [] then
            bind_err (pct_cell st ''pct_correct_notdogs'') (\<lambda>notdog_pct.
            bind_err (pct_cell st ''pct_correct_dogs'') (\<lambda>dog_pct.
            bind_err (pct_cell st ''pct_correct_breed'') (\<lambda>breed_pct.
            bind_err (pct_cell st ''pct_match'') (\<lambda>match_pct.
              Inr [VStr model, notdog_pct, dog_pct, breed_pct, match_pct,
                   dict_get_default st ''runtime'' (VStr ''0:0:0'')]))))
          else Inr (error_row model)
      | _ \<Rightarrow> Inr (error_row model))"

text \<open>
  \<open>matplotlib_available\<close> says whether the three imports succeed. \<^verbatim>\<open>next(iter(...))\<close> on an
  empty dictionary is a StopIteration.
\<close>

definition create_visual_results_table :: "bool \<Rightarrow> results \<Rightarrow> error + visual_result" where
  "create_visual_results_table matplotlib_available all_results =
     (if \<not> matplotlib_available then
        Inr \<lparr>visual_printed = [''Matplotlib not available. Skipping visual table creation.''],
             artifact = None, returned = None\<rparr>
      else case all_results of
        [] \<Rightarrow> Inl StopIteration
      | (first_model, sample_stats) # others \<Rightarrow>
          (case sample_stats of
             None \<Rightarrow> Inr \<lparr>visual_printed = [''No valid results to display''],
                          artifact = None, returned = None\<rparr>
           | Some st \<Rightarrow>
               if st = [] then
                 Inr \<lparr>visual_printed = [''No valid results to display''],
                      artifact = None, returned = None\<rparr>
               else
                 bind_err (summary_cell ''# Total Images'' (dict_get_default st ''n_images'' (VInt 0))) (\<lambda>c1.
                 bind_err (summary_cell ''# Dog Images'' (dict_get_default st ''n_dogs'' (VInt 0))) (\<lambda>c2.
                 bind_err (summary_cell ''# Not-a-Dog Images'' (dict_get_default st ''n_notdogs'' (VInt 0))) (\<lambda>c3.
                 bind_err (map_err (table_row all_results) display_models) (\<lambda>rows.
                   Inr \<lparr>visual_printed =
                          [CHR 0x0A # ''Visual results table saved as: results_table_uploaded-images.png''],
                        artifact = Some
                          \<lparr>summary_data = [c1, c2, c3],
                           table_data = rows,
                           filename = ''results_table_uploaded-images.png''\<rparr>,
                        returned = Some ''results_table_uploaded-images.png''\<rparr>))))))"

section \<open>Predicates used in the statements\<close>

text \<open>The state of the loop while it has not entered the results section: at most a runtime.\<close>

definition only_runtime :: "flow \<Rightarrow> bool" where
  "only_runtime f =
     (case f of
        Next in_results_section st \<Rightarrow> \<not> in_results_section \<and> set (dict_keys st) \<subseteq> {''runtime''}
      | Stop st \<Rightarrow> set (dict_keys st) \<subseteq> {''runtime''})"

text \<open>The two parts of a line around its first colon.\<close>

definition before_first_colon :: "string \<Rightarrow> string" where
  "before_first_colon line = takeWhile (\<lambda>c. c \<noteq> CHR '':'') line"

definition after_first_colon :: "string \<Rightarrow> string" where
  "after_first_colon line = tl (dropWhile (\<lambda>c. c \<noteq> CHR '':'') line)"

text \<open>A count line and the key it is stored under: the first label found decides.\<close>

definition count_key :: "string \<Rightarrow> string option" where
  "count_key line =
     (if contains ''N Images'' line then Some ''n_images''
      else if contains ''N Dog Images'' line then Some ''n_dogs''
      else if contains ''N Not-Dog Images'' line then Some ''n_notdogs''
      else None)"

text \<open>The text after the last occurrence of \<open>sub\<close> in \<open>s\<close>, if \<open>sub\<close> occurs at all.\<close>

fun after_last :: "string \<Rightarrow> string \<Rightarrow> string option" where
  "after_last sub [] = (if sub = [] then Some [] else None)"
| "after_last sub (x # xs) =
     (case after_last sub xs of
        Some t \<Rightarrow> Some t
      | None \<Rightarrow> if prefix sub (x # xs) then Some (drop (length sub) (x # xs)) else None)"

text \<open>
  A line that a branch before the runtime branch takes: one with the section header, or, in
  the results section, one with a colon and a count label or a percent sign.
\<close>

definition taken_earlier :: "bool \<Rightarrow> string \<Rightarrow> bool" where
  "taken_earlier in_results_section line =
     (contains section_marker line
      \<or> (in_results_section \<and> contains '':'' line
          \<and> (count_key line \<noteq> None \<or> contains ''%'' line)))"

text \<open>
  What a percentage line stores: the key made from the label before the colon, and the value
  read from the text after it.
\<close>

definition metric_key :: "string \<Rightarrow> string" where
  "metric_key line = lower (replace_char (CHR '' '') ''_'' (strip (before_first_colon line)))"

definition metric_text :: "string \<Rightarrow> string" where
  "metric_text line = replace_char (CHR ''%'') [] (strip (after_first_colon line))"

definition metric_value :: "string \<Rightarrow> pyval" where
  "metric_value line =
     (case py_float (metric_text line) of Inr x \<Rightarrow> VFloat x | Inl e \<Rightarrow> VStr (metric_text line))"

text \<open>
  The value \<open>w\<close> is the first maximum of the items under \<open>key\<close>: no item has a greater key,
  and the key of \<open>w\<close> is greater than that of every item before it.
\<close>

definition first_max :: "('a \<Rightarrow> pyval) \<Rightarrow> 'a list \<Rightarrow> 'a \<Rightarrow> bool" where
  "first_max key items w =
     (\<exists>i<length items. items ! i = w
        \<and> (\<forall>j<length items. py_gt (key (items ! j)) (key w) = Inr False)
        \<and> (\<forall>j<i. py_gt (key w) (key (items ! j)) = Inr True))"

text \<open>A metric as the analyzer expects it: the default \<open>0\<close>, or a float other than NaN.\<close>

definition plain :: "pyval \<Rightarrow> bool" where
  "plain v = (case v of VInt i \<Rightarrow> i = 0 | VFloat x \<Rightarrow> x \<noteq> NaN | VStr s \<Rightarrow> False)"

text \<open>Every value recorded under one of the four metrics is a float other than NaN.\<close>

definition plain_metrics :: "results \<Rightarrow> bool" where
  "plain_metrics all_results =
     (\<forall>item\<in>set all_results. \<forall>key\<in>set console_keys.
        (case snd item of
           None \<Rightarrow> True
         | Some st \<Rightarrow> (case map_of st key of
                         None \<Rightarrow> True
                       | Some v \<Rightarrow> (case v of VFloat x \<Rightarrow> x \<noteq> NaN | _ \<Rightarrow> False))))"

text \<open>The place of a number among the numbers: the infinities below and above the rationals.\<close>

definition rank :: "pyval \<Rightarrow> int \<times> rat" where
  "rank v =
     (case v of
        VInt i \<Rightarrow> (0, of_int i)
      | VFloat x \<Rightarrow> (case x of Finite s m \<Rightarrow> (0, signed s m)
                     | Infinity s \<Rightarrow> (if s then - 1 else 1, 0)
                     | NaN \<Rightarrow> (0, 0))
      | VStr s \<Rightarrow> (0, 0))"

definition rank_less :: "int \<times> rat \<Rightarrow> int \<times> rat \<Rightarrow> bool" where
  "rank_less a b = (fst a < fst b \<or> (fst a = fst b \<and> snd a < snd b))"

text \<open>
  The comparison \<^verbatim>\<open>a == b\<close> of two values that are not the same object, as the values of
  two calls are: numbers by their exact values, NaN equal to nothing, a string only to an
  equal string.
\<close>

definition float_eq :: "pyfloat \<Rightarrow> pyfloat \<Rightarrow> bool" where
  "float_eq a b =
     (case a of
        NaN \<Rightarrow> False
      | Infinity s \<Rightarrow> (case b of Infinity t \<Rightarrow> s = t | _ \<Rightarrow> False)
      | Finite s m \<Rightarrow> (case b of Finite t n \<Rightarrow> signed s m = signed t n | _ \<Rightarrow> False))"

definition py_eq :: "pyval \<Rightarrow> pyval \<Rightarrow> bool" where
  "py_eq a b =
     (case a of
        VStr s \<Rightarrow> (case b of VStr t \<Rightarrow> s = t | _ \<Rightarrow> False)
      | VInt i \<Rightarrow> (case b of VStr t \<Rightarrow> False | VInt j \<Rightarrow> i = j
                    | VFloat y \<Rightarrow> float_eq (exact_of_int i) y)
      | VFloat x \<Rightarrow> (case b of VStr t \<Rightarrow> False | VInt j \<Rightarrow> float_eq x (exact_of_int j)
                      | VFloat y \<Rightarrow> float_eq x y))"

text \<open>
  \<^verbatim>\<open>d1 == d2\<close> for two dictionaries: as many keys, and every key of the first is a key of
  the second with an equal value.
\<close>

definition dict_eq :: "stats \<Rightarrow> stats \<Rightarrow> bool" where
  "dict_eq d1 d2 =
     (length d1 = length d2
      \<and> list_all (\<lambda>(k, v). case map_of d2 k of None \<Rightarrow> False | Some w \<Rightarrow> py_eq v w) d1)"

text \<open>No value of the mapping is NaN.\<close>

definition nan_free :: "stats \<Rightarrow> bool" where
  "nan_free d = list_all (\<lambda>(k, v). v \<noteq> VFloat NaN) d"

text \<open>The statistics of a state of the loop have no key twice.\<close>

definition distinct_keys :: "flow \<Rightarrow> bool" where
  "distinct_keys f = distinct (dict_keys (flow_stats f))"

text \<open>The statistics \<open>x\<close> are \<open>st\<close> itself or \<open>st\<close> with one key set.\<close>

definition updated :: "stats \<Rightarrow> stats \<Rightarrow> bool" where
  "updated st x = (x = st \<or> (\<exists>k v. x = dict_set st k v))"

(*END-DEFS*)

section \<open>Strings and dictionaries\<close>

lemma contains_iff_sublist: "contains sub s = sublist sub s"
  by (induction s) (auto simp: sublist_Cons_right)

lemma split_char_not_Nil: "split_char c s \<noteq> []"
  by (induction s) (auto split: list.splits)

lemma split_char_unfold:
  "split_char c s =
     takeWhile (\<lambda>x. x \<noteq> c) s #
       (case dropWhile (\<lambda>x. x \<noteq> c) s of [] \<Rightarrow> [] | y # r \<Rightarrow> split_char c r)"
  by (induction s) (auto split: list.splits)

lemma split_char_sublist: "l \<in> set (split_char c s) \<Longrightarrow> sublist l s"
proof (induction s arbitrary: l)
  case Nil
  then show ?case by simp
next
  case (Cons x xs)
  show ?case
  proof (cases "x = c")
    case True
    with Cons show ?thesis by (auto simp: sublist_Cons_right)
  next
    case False
    obtain p ps where sp: "split_char c xs = p # ps"
      using split_char_not_Nil by (cases "split_char c xs") auto
    from Cons.prems False sp have "l = x # p \<or> l \<in> set ps" by simp
    then show ?thesis
    proof
      assume l: "l = x # p"
      have "p = takeWhile (\<lambda>x. x \<noteq> c) xs"
        using sp split_char_unfold [of c xs] by simp
      then have "prefix p xs" by (metis takeWhile_dropWhile_id prefixI)
      then have "prefix l (x # xs)" using l by simp
      then show ?thesis by (rule prefix_imp_sublist)
    next
      assume "l \<in> set ps"
      then have "sublist l xs" using Cons.IH sp by simp
      then show ?thesis by (simp add: sublist_Cons_right)
    qed
  qed
qed

lemma keys_dict_set: "set (dict_keys (dict_set d k v)) = insert k (set (dict_keys d))"
  unfolding dict_keys_def by (induction d k v rule: dict_set.induct) auto

lemma map_of_dict_set: "map_of (dict_set d k v) = (map_of d)(k \<mapsto> v)"
  by (induction d k v rule: dict_set.induct) auto

section \<open>The extractor never raises\<close>

text \<open>
  The two subscripts of the percentage branch stand outside the \<^verbatim>\<open>try\<close> block; they are
  guarded by the test on the number of parts.
\<close>

lemma process_line_total: "\<exists>f. process_line irs st l = Inr f"
  by (auto simp: process_line_def Let_def py_index_def split: sum.splits)

lemma scan_lines_total: "\<exists>g. scan_lines f ls = Inr g"
proof (induction ls arbitrary: f)
  case Nil
  show ?case by simp
next
  case (Cons l ls)
  show ?case
  proof (cases f)
    case (Stop st)
    then show ?thesis by simp
  next
    case (Next irs st)
    obtain f' where "process_line irs st l = Inr f'" using process_line_total by blast
    then show ?thesis using Next Cons by simp
  qed
qed

lemma scan_lines_append:
  "scan_lines f (xs @ ys) = (case scan_lines f xs of Inl e \<Rightarrow> Inl e | Inr g \<Rightarrow> scan_lines g ys)"
proof (induction xs arbitrary: f)
  case Nil
  show ?case by simp
next
  case (Cons x xs)
  show ?case
  proof (cases f)
    case (Stop st)
    then show ?thesis by (cases ys) simp_all
  next
    case (Next irs st)
    then show ?thesis using Cons by (simp split: sum.splits)
  qed
qed

lemma scan_lines_Stop: "scan_lines (Stop st) ls = Inr (Stop st)"
  by (cases ls) simp_all

section \<open>Text without the section header\<close>

lemma process_line_outside:
  assumes "\<not> contains section_marker l"
  shows "process_line False st l = Inr (Next False st)
       \<or> process_line False st l = Inr (Stop st)
       \<or> (\<exists>v. process_line False st l = Inr (Stop (dict_set st ''runtime'' v)))"
  using assms by (auto simp: process_line_def Let_def)

lemma scan_lines_outside:
  assumes "\<forall>l\<in>set ls. \<not> contains section_marker l" and "only_runtime f"
      and "scan_lines f ls = Inr g"
  shows "only_runtime g"
  using assms
proof (induction ls arbitrary: f)
  case Nil
  then show ?case by simp
next
  case (Cons l ls)
  show ?case
  proof (cases f)
    case (Stop st)
    with Cons.prems show ?thesis by simp
  next
    case (Next irs st)
    with Cons.prems have irs: "\<not> irs" and keys: "set (dict_keys st) \<subseteq> {''runtime''}"
      by (simp_all add: only_runtime_def)
    from Cons.prems have nm: "\<not> contains section_marker l" by simp
    obtain f' where f': "process_line False st l = Inr f'" using process_line_total by blast
    have "only_runtime f'"
      using process_line_outside [OF nm, of st] f' keys
      by (auto simp: only_runtime_def keys_dict_set)
    moreover have "scan_lines f' ls = Inr g" using Cons.prems f' Next irs by simp
    ultimately show ?thesis using Cons.IH Cons.prems by simp
  qed
qed

text \<open>
  Claim C7. For every input text in which the section header
  \<^verbatim>\<open>Results Summary for CNN Model Architecture\<close> never appears, \<^verbatim>\<open>extract_statistics\<close>
  returns a mapping that is empty except possibly for the key \<^verbatim>\<open>runtime\<close>.
\<close>

theorem no_marker_only_runtime:
  assumes "\<not> contains section_marker output_text"
  shows "\<exists>m. extract_statistics output_text = Inr m \<and> set (dict_keys m) \<subseteq> {''runtime''}"
proof -
  have nm: "\<forall>l\<in>set (split_char (CHR 0x0A) output_text). \<not> contains section_marker l"
  proof
    fix l assume "l \<in> set (split_char (CHR 0x0A) output_text)"
    then have "sublist l output_text" by (rule split_char_sublist)
    then show "\<not> contains section_marker l"
      using assms sublist_order.order_trans by (auto simp: contains_iff_sublist)
  qed
  obtain g where g: "scan_lines (Next False []) (split_char (CHR 0x0A) output_text) = Inr g"
    using scan_lines_total by blast
  have "only_runtime (Next False [])" by (simp add: only_runtime_def dict_keys_def)
  then have "only_runtime g" using scan_lines_outside [OF nm _ g] by simp
  then have "set (dict_keys (flow_stats g)) \<subseteq> {''runtime''}"
    by (cases g) (simp_all add: only_runtime_def flow_stats_def)
  then show ?thesis using g by (simp add: extract_statistics_def)
qed

theorem no_marker_only_runtime_witness:
  "\<not> contains section_marker ''N Images: 40''
   \<and> (\<exists>m. extract_statistics ''N Images: 40'' = Inr m \<and> set (dict_keys m) \<subseteq> {''runtime''})"
proof -
  have h: "\<not> contains section_marker ''N Images: 40''"
    by (simp add: section_marker_def)
  show ?thesis using h no_marker_only_runtime [OF h] by blast
qed

section \<open>Count lines\<close>

lemma contains_single: "contains [c] s = (c \<in> set s)"
  by (induction s) auto

lemma split_char_no_sep: "c \<notin> set s \<Longrightarrow> split_char c s = [s]"
  by (induction s) auto

lemma split_char_length: "length (split_char c s) = Suc (count_list s c)"
  by (induction s) (auto split: list.splits simp: split_char_not_Nil)

lemma split_char_two:
  assumes "length (split_char c s) = 2"
  shows "split_char c s = [takeWhile (\<lambda>x. x \<noteq> c) s, tl (dropWhile (\<lambda>x. x \<noteq> c) s)]"
proof (cases "dropWhile (\<lambda>x. x \<noteq> c) s")
  case Nil
  have "split_char c s =
          takeWhile (\<lambda>x. x \<noteq> c) s # (case ([] :: string) of [] \<Rightarrow> [] | y # r \<Rightarrow> split_char c r)"
    using split_char_unfold [of c s] by (simp only: Nil)
  then show ?thesis using assms by simp
next
  case (Cons y r)
  then have u: "split_char c s = takeWhile (\<lambda>x. x \<noteq> c) s # split_char c r"
    using split_char_unfold [of c s] by simp
  with assms have "length (split_char c r) = 1" by simp
  then have "count_list r c = 0" by (simp add: split_char_length)
  then have "c \<notin> set r" by (simp add: count_list_0_iff)
  then show ?thesis using u Cons by (simp add: split_char_no_sep)
qed

lemma split_char_more:
  assumes "c \<in> set s" and "length (split_char c s) \<noteq> 2"
  shows "c \<in> set (tl (dropWhile (\<lambda>x. x \<noteq> c) s))"
proof (cases "dropWhile (\<lambda>x. x \<noteq> c) s")
  case Nil
  then have "\<forall>x\<in>set s. x \<noteq> c" by (simp only: dropWhile_eq_Nil_conv)
  with assms show ?thesis by blast
next
  case (Cons y r)
  then have u: "split_char c s = takeWhile (\<lambda>x. x \<noteq> c) s # split_char c r"
    using split_char_unfold [of c s] by simp
  with assms have "length (split_char c r) \<noteq> 1" by simp
  then have "c \<in> set r" by (cases "c \<in> set r") (simp_all add: split_char_no_sep)
  then show ?thesis using Cons by simp
qed

lemma dropWhile_keeps: "x \<in> set xs \<Longrightarrow> \<not> P x \<Longrightarrow> x \<in> set (dropWhile P xs)"
  by (induction xs) auto

lemma strip_keeps: "c \<in> set s \<Longrightarrow> \<not> py_isspace c \<Longrightarrow> c \<in> set (strip s)"
  by (simp add: strip_def dropWhile_keeps)

lemma digit_run_other: "c \<in> set cs \<Longrightarrow> c \<noteq> CHR ''_'' \<Longrightarrow> \<not> is_digit c \<Longrightarrow> \<not> digit_run prev cs"
  by (induction cs arbitrary: prev) auto

lemma num_strip_keeps: "c \<in> set s \<Longrightarrow> \<not> num_isspace c \<Longrightarrow> c \<in> set (num_strip s)"
  by (simp add: num_strip_def dropWhile_keeps)

lemma py_int_colon:
  assumes "CHR '':'' \<in> set s"
  shows "py_int s = Inl ValueError"
proof -
  have ns: "\<not> num_isspace (CHR '':'')" by (simp add: num_isspace_def)
  have "CHR '':'' \<in> set (num_strip s)" using assms ns by (rule num_strip_keeps)
  then have "CHR '':'' \<in> set (snd (split_sign (num_strip s)))"
    by (auto simp: split_sign_def split: list.splits)
  moreover have "\<not> is_digit (CHR '':'')" by (simp add: is_digit_def)
  ultimately have "\<not> digit_run (CHR ''0'') (snd (split_sign (num_strip s)))"
    using digit_run_other by simp
  then show ?thesis by (simp add: py_int_def case_prod_beta)
qed

lemma store_count_two:
  "store_count st key [a, b] = (case py_int (strip b) of Inl e \<Rightarrow> st | Inr n \<Rightarrow> dict_set st key (VInt n))"
  by (simp add: store_count_def py_index_def)

lemma count_parts:
  assumes "contains '':'' line"
  shows "(if length (split_char (CHR '':'') line) = 2
          then store_count st key (split_char (CHR '':'') line) else st)
         = (case py_int (strip (after_first_colon line)) of
              Inl e \<Rightarrow> st | Inr n \<Rightarrow> dict_set st key (VInt n))"
proof (cases "length (split_char (CHR '':'') line) = 2")
  case True
  then show ?thesis
    using split_char_two [OF True] by (simp add: store_count_two after_first_colon_def)
next
  case False
  have "CHR '':'' \<in> set line" using assms by (simp add: contains_single)
  then have "CHR '':'' \<in> set (after_first_colon line)"
    using False unfolding after_first_colon_def by (rule split_char_more)
  then have "CHR '':'' \<in> set (strip (after_first_colon line))"
    by (rule strip_keeps) (simp add: py_isspace_def)
  then have "py_int (strip (after_first_colon line)) = Inl ValueError" by (rule py_int_colon)
  then show ?thesis using False by simp
qed

lemma process_count_line:
  assumes "\<not> contains section_marker line" and "contains '':'' line"
      and "count_key line = Some key"
  shows "process_line True st line =
           Inr (Next True (case py_int (strip (after_first_colon line)) of
                             Inl e \<Rightarrow> st | Inr n \<Rightarrow> dict_set st key (VInt n)))"
proof -
  have "process_line True st line =
          Inr (Next True (if length (split_char (CHR '':'') line) = 2
                          then store_count st key (split_char (CHR '':'') line) else st))"
    using assms by (auto simp: process_line_def count_key_def Let_def split: if_splits)
  then show ?thesis using count_parts [OF assms(2)] by simp
qed

section \<open>Lines in the results section\<close>

lemma extract_at_line:
  assumes "split_char (CHR 0x0A) output_text = pre @ line # post"
      and "scan_lines (Next False []) pre = Inr (Next irs st)"
      and "process_line irs st line = Inr f"
  shows "\<exists>g. scan_lines f post = Inr g \<and> extract_statistics output_text = Inr (flow_stats g)"
proof -
  obtain g where g: "scan_lines f post = Inr g" using scan_lines_total by blast
  have "scan_lines (Next False []) (pre @ line # post) = Inr g"
    using assms(2,3) g by (simp add: scan_lines_append)
  then show ?thesis using g assms(1) by (simp add: extract_statistics_def)
qed

text \<open>
  Claim C1, as amended. Take a line that the loop reaches inside the results section (the
  lines before it leave the loop in the state \<open>Next True st\<close>), that does not hold the section
  header, and that holds a colon and a count label: \<^verbatim>\<open>N Images\<close>, else \<^verbatim>\<open>N Dog Images\<close>,
  else \<^verbatim>\<open>N Not-Dog Images\<close>, the first label found deciding the key. The text after the
  first colon is trimmed and read as an integer. When that succeeds the integer is stored
  under the key; when it fails the statistics stay as they were. No error is raised, and the
  extraction goes on with the remaining lines from that state.
\<close>

theorem count_line_stored:
  assumes "split_char (CHR 0x0A) output_text = pre @ line # post"
      and "scan_lines (Next False []) pre = Inr (Next True st)"
      and "\<not> contains section_marker line"
      and "contains '':'' line"
      and "count_key line = Some key"
  shows "\<exists>g. scan_lines
              (Next True (case py_int (strip (after_first_colon line)) of
                            Inl e \<Rightarrow> st | Inr n \<Rightarrow> dict_set st key (VInt n))) post = Inr g
            \<and> extract_statistics output_text = Inr (flow_stats g)"
  using assms(1,2) process_count_line [OF assms(3,4,5)] by (rule extract_at_line)

text \<open>The line \<^verbatim>\<open>N Images            :  40\<close> after the section header.\<close>

theorem count_line_stored_witness:
  "extract_statistics (section_marker @ [CHR 0x0A] @ ''N Images            :  40'')
     = Inr [(''n_images'', VInt 40)]"
proof -
  have h1: "split_char (CHR 0x0A) (section_marker @ [CHR 0x0A] @ ''N Images            :  40'')
              = [section_marker] @ ''N Images            :  40'' # []"
    by code_simp
  have h2: "scan_lines (Next False []) [section_marker] = Inr (Next True [])"
    by code_simp
  have h3: "\<not> contains section_marker ''N Images            :  40''" by code_simp
  have h4: "contains '':'' ''N Images            :  40''" by code_simp
  have h5: "count_key ''N Images            :  40'' = Some ''n_images''" by code_simp
  have h6: "py_int (strip (after_first_colon ''N Images            :  40'')) = Inr 40"
    by code_simp
  show ?thesis
    using count_line_stored [OF h1 h2 h3 h4 h5] h6 by (simp add: flow_stats_def)
qed

text \<open>
  The claim as first stated, for every line after the section header, fails on a line that
  holds the section header again together with a count label: the header branch takes it and
  nothing is stored.
\<close>

theorem count_line_with_header_counterexample:
  "extract_statistics
     (section_marker @ [CHR 0x0A] @ section_marker @ '' RESNET, N Images: 40'') = Inr []
   \<and> contains '':'' (section_marker @ '' RESNET, N Images: 40'')
   \<and> count_key (section_marker @ '' RESNET, N Images: 40'') = Some ''n_images''
   \<and> py_int (strip (after_first_colon (section_marker @ '' RESNET, N Images: 40''))) = Inr 40"
  by code_simp

lemma process_percent_line:
  assumes "\<not> contains section_marker line" and "contains '':'' line" and "contains ''%'' line"
      and "count_key line = None"
  shows "process_line True st line =
           Inr (Next True (if count_list line (CHR '':'') = 1
                           then dict_set st (metric_key line) (metric_value line) else st))"
proof (cases "length (split_char (CHR '':'') line) = 2")
  case True
  have one: "count_list line (CHR '':'') = 1" using True by (simp add: split_char_length)
  have nl: "\<not> contains ''N Images'' line" "\<not> contains ''N Dog Images'' line"
           "\<not> contains ''N Not-Dog Images'' line"
    using assms(4) by (auto simp: count_key_def split: if_splits)
  show ?thesis
    using assms(1,2,3) nl one split_char_two [OF True]
    by (simp add: process_line_def Let_def py_index_def metric_key_def metric_text_def
        metric_value_def before_first_colon_def after_first_colon_def split: sum.splits)
next
  case False
  then have one: "count_list line (CHR '':'') \<noteq> 1" by (simp add: split_char_length)
  have nl: "\<not> contains ''N Images'' line" "\<not> contains ''N Dog Images'' line"
           "\<not> contains ''N Not-Dog Images'' line"
    using assms(4) by (auto simp: count_key_def split: if_splits)
  show ?thesis
    using assms(1,2,3) nl one False by (simp add: process_line_def Let_def)
qed

text \<open>
  Claim C6, as amended. Take a line that the loop reaches inside the results section, that does
  not hold the section header nor a count label, and that holds a colon and a percent sign.
  When the line has exactly one colon, the key is the label before the colon, trimmed, spaces
  replaced by underscores, in lower case; the value is the text after the colon, trimmed, with
  every percent sign removed, read as a float, and that text itself when it is not a float.
  When the line has more than one colon nothing is stored.
\<close>

theorem percent_line_stored:
  assumes "split_char (CHR 0x0A) output_text = pre @ line # post"
      and "scan_lines (Next False []) pre = Inr (Next True st)"
      and "\<not> contains section_marker line"
      and "contains '':'' line" and "contains ''%'' line"
      and "count_key line = None"
  shows "\<exists>g. scan_lines
              (Next True (if count_list line (CHR '':'') = 1
                          then dict_set st (metric_key line) (metric_value line) else st)) post = Inr g
            \<and> extract_statistics output_text = Inr (flow_stats g)"
  using assms(1,2) process_percent_line [OF assms(3,4,5,6)] by (rule extract_at_line)

section \<open>The runtime line\<close>



lemma after_last_split: "after_last sub s = Some t \<Longrightarrow> \<exists>p. s = p @ sub @ t"
proof (induction s)
  case Nil
  then show ?case by (simp split: if_splits)
next
  case (Cons x xs)
  show ?case
  proof (cases "after_last sub xs")
    case (Some t')
    with Cons obtain p where "xs = p @ sub @ t" by auto
    then have "x # xs = (x # p) @ sub @ t" by simp
    then show ?thesis by blast
  next
    case None
    with Cons.prems have pre: "prefix sub (x # xs)" and t: "t = drop (length sub) (x # xs)"
      by (simp_all split: if_splits)
    from pre obtain r where r: "x # xs = sub @ r" by (auto simp: prefix_def)
    then have "t = r" using t by (metis append_eq_conv_conj)
    then have "x # xs = [] @ sub @ t" using r by simp
    then show ?thesis by blast
  qed
qed

lemma rfind_from_after_last:
  "rfind_from sub s i found =
     (case after_last sub s of
        None \<Rightarrow> found
      | Some t \<Rightarrow> int i + int (length s) - int (length sub) - int (length t))"
proof (induction s arbitrary: i found)
  case Nil
  show ?case by simp
next
  case (Cons x xs)
  show ?case
  proof (cases "after_last sub xs")
    case (Some t)
    then show ?thesis using Cons [of "Suc i"] by simp
  next
    case None
    show ?thesis
    proof (cases "prefix sub (x # xs)")
      case True
      then have "length sub \<le> length (x # xs)" by (rule prefix_length_le)
      then show ?thesis using None True Cons [of "Suc i"] by simp
    next
      case False
      then show ?thesis using None Cons [of "Suc i"] by simp
    qed
  qed
qed

lemma runtime_branch:
  "(if 1 < rfind line '': '' + 2
    then dict_set st ''runtime'' (VStr (strip (slice_from line (rfind line '': '' + 2)))) else st)
   = (case after_last '': '' line of
        Some t \<Rightarrow> dict_set st ''runtime'' (VStr (strip t)) | None \<Rightarrow> st)"
proof (cases "after_last '': '' line")
  case None
  then have "rfind line '': '' = - 1" by (simp add: rfind_def rfind_from_after_last)
  then show ?thesis using None by simp
next
  case (Some t)
  then obtain p where p: "line = p @ '': '' @ t" using after_last_split by blast
  have "rfind line '': '' = int (length p)"
    using Some p by (simp add: rfind_def rfind_from_after_last)
  moreover have "drop (Suc (Suc (length p))) line = t" using p by simp
  ultimately show ?thesis using Some by (simp add: slice_from_def nat_add_distrib)
qed

lemma count_key_None:
  "(count_key line = None) =
     (\<not> contains ''N Images'' line \<and> \<not> contains ''N Dog Images'' line
      \<and> \<not> contains ''N Not-Dog Images'' line)"
  by (simp add: count_key_def)

lemma process_runtime_line:
  assumes "contains runtime_marker line" and "\<not> taken_earlier irs line"
  shows "process_line irs st line =
           Inr (Stop (case after_last '': '' line of
                        Some t \<Rightarrow> dict_set st ''runtime'' (VStr (strip t)) | None \<Rightarrow> st))"
proof -
  have nm: "\<not> contains section_marker line" using assms(2) by (simp add: taken_earlier_def)
  consider (outside) "\<not> irs" | (no_colon) "irs" "\<not> contains '':'' line"
    | (colon) "irs" "contains '':'' line" by blast
  then have "process_line irs st line =
          Inr (Stop (if 1 < rfind line '': '' + 2
                     then dict_set st ''runtime''
                            (VStr (strip (slice_from line (rfind line '': '' + 2))))
                     else st))"
  proof cases
    case outside
    then show ?thesis unfolding process_line_def Let_def using nm assms(1) by simp
  next
    case no_colon
    then show ?thesis unfolding process_line_def Let_def using nm assms(1) by simp
  next
    case colon
    then have "count_key line = None" and np: "\<not> contains ''%'' line"
      using assms(2) by (auto simp: taken_earlier_def)
    then have "\<not> contains ''N Images'' line" "\<not> contains ''N Dog Images'' line"
      "\<not> contains ''N Not-Dog Images'' line" by (simp_all add: count_key_None)
    then show ?thesis unfolding process_line_def Let_def using nm np assms(1) by simp
  qed
  then show ?thesis by (simp only: runtime_branch)
qed

text \<open>
  Claim C2, as amended. Take a line that holds \<^verbatim>\<open>Total Elapsed Runtime\<close>, that the loop
  reaches, and that no earlier branch takes: it does not hold the section header and, inside
  the results section, it does not hold a colon together with a count label or a percent
  sign. Outside the results section no more is asked. When \<^verbatim>\<open>: \<close> occurs in the line,
  the text after its last occurrence, trimmed, is stored under \<^verbatim>\<open>runtime\<close>; otherwise
  nothing is stored. In both cases the loop is left there: the result is made of the
  statistics of the lines before, and no later line contributes.
\<close>

theorem runtime_line_stops:
  assumes "split_char (CHR 0x0A) output_text = pre @ line # post"
      and "scan_lines (Next False []) pre = Inr (Next in_results_section st)"
      and "contains runtime_marker line"
      and "\<not> taken_earlier in_results_section line"
  shows "extract_statistics output_text =
           Inr (case after_last '': '' line of
                  Some t \<Rightarrow> dict_set st ''runtime'' (VStr (strip t)) | None \<Rightarrow> st)"
  using extract_at_line [OF assms(1,2) process_runtime_line [OF assms(3,4)]]
  by (simp add: scan_lines_Stop flow_stats_def)

text \<open>
  The line \<^verbatim>\<open>** Total Elapsed Runtime: 0:3:15\<close> before any section header gives the runtime
  \<^verbatim>\<open>0:3:15\<close>; the results section that follows it is not read.
\<close>

theorem runtime_line_stops_witness:
  "extract_statistics
     (''** Total Elapsed Runtime: 0:3:15'' @ [CHR 0x0A] @ section_marker @ [CHR 0x0A] @ ''N Images: 40'')
     = Inr [(''runtime'', VStr ''0:3:15'')]"
proof -
  have h1: "split_char (CHR 0x0A)
              (''** Total Elapsed Runtime: 0:3:15'' @ [CHR 0x0A] @ section_marker @ [CHR 0x0A] @ ''N Images: 40'')
            = [] @ ''** Total Elapsed Runtime: 0:3:15'' # [section_marker, ''N Images: 40'']"
    by code_simp
  have h2: "scan_lines (Next False []) [] = Inr (Next False [])" by simp
  have h3: "contains runtime_marker ''** Total Elapsed Runtime: 0:3:15''" by code_simp
  have h4: "\<not> taken_earlier False ''** Total Elapsed Runtime: 0:3:15''" by code_simp
  have h5: "after_last '': '' ''** Total Elapsed Runtime: 0:3:15'' = Some ''0:3:15''" by code_simp
  have h6: "strip ''0:3:15'' = ''0:3:15''" by code_simp
  show ?thesis using runtime_line_stops [OF h1 h2 h3 h4] h5 h6 by simp
qed

text \<open>
  The claim as first stated, for the first line that holds the phrase, fails inside the
  results section when the line holds a percent sign: the percentage branch takes it, no
  runtime is stored and the loop goes on.
\<close>

theorem runtime_line_percent_counterexample:
  "extract_statistics
     (section_marker @ [CHR 0x0A] @ ''** Total Elapsed Runtime: 0:3:15 (100%)'' @ [CHR 0x0A]
        @ ''N Images: 5'')
     = Inr [(''n_images'', VInt 5)]
   \<and> contains runtime_marker ''** Total Elapsed Runtime: 0:3:15 (100%)''"
  by code_simp

lemma py_float_93_3: "py_float ''93.3'' = Inr (round_double False (933 / 10))"
  by (simp add: py_float_def num_strip_def num_isspace_def split_sign_def ascii_lower_char_def
      is_digit_def parse_exponent_def nat_of_digits_def digit_val_def pow10_def)

text \<open>
  The line \<^verbatim>\<open>pct Correct Dogs: 93.3%\<close> after the section header gives the key
  \<^verbatim>\<open>pct_correct_dogs\<close> and the double nearest to 93.3.
\<close>

theorem percent_line_stored_witness:
  "extract_statistics (section_marker @ [CHR 0x0A] @ ''pct Correct Dogs: 93.3%'')
     = Inr [(''pct_correct_dogs'', VFloat (round_double False (933 / 10)))]"
proof -
  have h1: "split_char (CHR 0x0A) (section_marker @ [CHR 0x0A] @ ''pct Correct Dogs: 93.3%'')
              = [section_marker] @ ''pct Correct Dogs: 93.3%'' # []"
    by code_simp
  have h2: "scan_lines (Next False []) [section_marker] = Inr (Next True [])"
    by code_simp
  have h3: "\<not> contains section_marker ''pct Correct Dogs: 93.3%''" by code_simp
  have h4: "contains '':'' ''pct Correct Dogs: 93.3%''" by code_simp
  have h5: "contains ''%'' ''pct Correct Dogs: 93.3%''" by code_simp
  have h6: "count_key ''pct Correct Dogs: 93.3%'' = None" by code_simp
  have h7: "count_list ''pct Correct Dogs: 93.3%'' (CHR '':'') = 1" by simp
  have h8: "metric_key ''pct Correct Dogs: 93.3%'' = ''pct_correct_dogs''" by code_simp
  have "metric_text ''pct Correct Dogs: 93.3%'' = ''93.3''" by code_simp
  then have h9: "metric_value ''pct Correct Dogs: 93.3%'' = VFloat (round_double False (933 / 10))"
    by (simp add: metric_value_def py_float_93_3)
  show ?thesis
    using percent_line_stored [OF h1 h2 h3 h4 h5 h6] h7 h8 h9 by (simp add: flow_stats_def)
qed

text \<open>
  The claim as first stated, for every line with a colon and a percent sign, fails on a line
  with two colons: nothing is stored.
\<close>

theorem percent_line_two_colons_counterexample:
  "extract_statistics (section_marker @ [CHR 0x0A] @ ''Accuracy: dogs: 93.3%'') = Inr []
   \<and> contains '':'' ''Accuracy: dogs: 93.3%'' \<and> contains ''%'' ''Accuracy: dogs: 93.3%''
   \<and> count_key ''Accuracy: dogs: 93.3%'' = None"
  by code_simp

section \<open>The comparison of values and the maximum\<close>

lemma exact_of_int_signed: "exact_of_int i = Finite (i < 0) (of_int \<bar>i\<bar>)"
  by (simp add: exact_of_int_def)

lemma signed_abs: "signed (i < 0) \<bar>of_int i :: rat\<bar> = of_int i"
  by (simp add: signed_def)

lemma py_gt_rank:
  assumes "a \<noteq> VFloat NaN" "b \<noteq> VFloat NaN" "\<forall>s. a \<noteq> VStr s" "\<forall>s. b \<noteq> VStr s"
  shows "py_gt a b = Inr (rank_less (rank b) (rank a))"
  using assms
  by (cases a; cases b)
     (auto simp: py_gt_def float_gt_def exact_of_int_def signed_abs rank_def rank_less_def
           split: pyfloat.splits)

lemma py_gt_True_number:
  assumes "py_gt a b = Inr True"
  shows "(\<forall>s. a \<noteq> VStr s) \<and> a \<noteq> VFloat NaN \<and> (\<forall>s. b \<noteq> VStr s) \<and> b \<noteq> VFloat NaN
         \<or> (\<exists>s t. a = VStr s \<and> b = VStr t)"
  using assms
  by (cases a; cases b) (auto simp: py_gt_def float_gt_def split: pyfloat.splits)

lemma py_gt_trans_int:
  assumes "py_gt (VInt i) b = Inr True" and "py_gt b c = Inr True"
  shows "py_gt (VInt i) c = Inr True"
proof -
  have b: "(\<forall>s. b \<noteq> VStr s) \<and> b \<noteq> VFloat NaN" using py_gt_True_number [OF assms(1)] by auto
  then have c: "(\<forall>s. c \<noteq> VStr s) \<and> c \<noteq> VFloat NaN" using py_gt_True_number [OF assms(2)] by auto
  have "rank_less (rank b) (rank (VInt i))" using assms(1) b by (simp add: py_gt_rank)
  moreover have "rank_less (rank c) (rank b)" using assms(2) b c by (simp add: py_gt_rank)
  ultimately have "rank_less (rank c) (rank (VInt i))" by (auto simp: rank_less_def)
  then show ?thesis using c by (simp add: py_gt_rank)
qed

lemma py_gt_trans_zero:
  assumes "py_gt a b = Inr True" and "py_gt b (VInt 0) = Inr True"
  shows "py_gt a (VInt 0) = Inr True"
proof -
  have b: "(\<forall>s. b \<noteq> VStr s) \<and> b \<noteq> VFloat NaN" using py_gt_True_number [OF assms(2)] by auto
  then have a: "(\<forall>s. a \<noteq> VStr s) \<and> a \<noteq> VFloat NaN" using py_gt_True_number [OF assms(1)] by auto
  have "rank_less (rank b) (rank a)" using assms(1) a b by (simp add: py_gt_rank)
  moreover have "rank_less (rank (VInt 0)) (rank b)" using assms(2) b by (simp add: py_gt_rank)
  ultimately have "rank_less (rank (VInt 0)) (rank a)" by (auto simp: rank_less_def)
  then show ?thesis using a by (simp add: py_gt_rank)
qed

lemma py_gt_below_zero:
  assumes "py_gt (VInt 0) b = Inr True" and "py_gt a b = Inr False"
  shows "py_gt a (VInt 0) \<noteq> Inr True"
proof
  assume g: "py_gt a (VInt 0) = Inr True"
  have b: "(\<forall>s. b \<noteq> VStr s) \<and> b \<noteq> VFloat NaN" using py_gt_True_number [OF assms(1)] by auto
  have a: "(\<forall>s. a \<noteq> VStr s) \<and> a \<noteq> VFloat NaN" using py_gt_True_number [OF g] by auto
  have "rank_less (rank b) (rank (VInt 0))" using assms(1) b by (simp add: py_gt_rank)
  moreover have "rank_less (rank (VInt 0)) (rank a)" using g a by (simp add: py_gt_rank)
  moreover have "\<not> rank_less (rank b) (rank a)" using assms(2) a b by (simp add: py_gt_rank)
  ultimately show False by (auto simp: rank_less_def)
qed

lemma max_loop_zero_winner:
  assumes "max_loop key m (key m) items = Inr w" and "key w = VInt 0"
  shows "w = m \<or> py_gt (VInt 0) (key m) = Inr True"
  using assms
proof (induction items arbitrary: m)
  case Nil
  then show ?case by simp
next
  case (Cons x rest)
  show ?case
  proof (cases "py_gt (key x) (key m)")
    case (Inl e)
    with Cons.prems show ?thesis by simp
  next
    case (Inr g)
    show ?thesis
    proof (cases g)
      case True
      with Inr have gt: "py_gt (key x) (key m) = Inr True" by simp
      with Cons.prems have "max_loop key x (key x) rest = Inr w" by simp
      then have "w = x \<or> py_gt (VInt 0) (key x) = Inr True"
        using Cons.prems(2) by (rule Cons.IH)
      then show ?thesis
      proof
        assume "w = x"
        then show ?thesis using gt Cons.prems(2) by simp
      next
        assume "py_gt (VInt 0) (key x) = Inr True"
        then have "py_gt (VInt 0) (key m) = Inr True"
          using gt by (rule py_gt_trans_int)
        then show ?thesis by simp
      qed
    next
      case False
      with Inr Cons.prems have "max_loop key m (key m) rest = Inr w" by simp
      then show ?thesis using Cons.prems(2) by (rule Cons.IH)
    qed
  qed
qed

lemma max_loop_zero_bound:
  assumes "max_loop key m (key m) items = Inr w" and "key w = VInt 0"
  shows "\<forall>x\<in>set (m # items). py_gt (key x) (VInt 0) \<noteq> Inr True"
  using assms
proof (induction items arbitrary: m)
  case Nil
  then show ?case by (simp add: py_gt_def)
next
  case (Cons x rest)
  show ?case
  proof (cases "py_gt (key x) (key m)")
    case (Inl e)
    with Cons.prems show ?thesis by simp
  next
    case (Inr g)
    show ?thesis
    proof (cases g)
      case True
      with Inr have gt: "py_gt (key x) (key m) = Inr True" by simp
      with Cons.prems have "max_loop key x (key x) rest = Inr w" by simp
      then have ih: "\<forall>y\<in>set (x # rest). py_gt (key y) (VInt 0) \<noteq> Inr True"
        using Cons.prems(2) by (rule Cons.IH)
      have "py_gt (key m) (VInt 0) \<noteq> Inr True"
      proof
        assume "py_gt (key m) (VInt 0) = Inr True"
        with gt have "py_gt (key x) (VInt 0) = Inr True" by (rule py_gt_trans_zero)
        then show False using ih by simp
      qed
      then show ?thesis using ih by simp
    next
      case False
      with Inr have ngt: "py_gt (key x) (key m) = Inr False" by simp
      with Cons.prems have ml: "max_loop key m (key m) rest = Inr w" by simp
      then have ih: "\<forall>y\<in>set (m # rest). py_gt (key y) (VInt 0) \<noteq> Inr True"
        using Cons.prems(2) by (rule Cons.IH)
      have "w = m \<or> py_gt (VInt 0) (key m) = Inr True"
        using ml Cons.prems(2) by (rule max_loop_zero_winner)
      then have "py_gt (key x) (VInt 0) \<noteq> Inr True"
      proof
        assume "w = m"
        then show ?thesis using ngt Cons.prems(2) by simp
      next
        assume "py_gt (VInt 0) (key m) = Inr True"
        then show ?thesis using ngt by (rule py_gt_below_zero)
      qed
      then show ?thesis using ih by simp
    qed
  qed
qed

lemma py_max_zero_bound:
  assumes "py_max key items = Inr w" and "key w = VInt 0"
  shows "\<forall>x\<in>set items. py_gt (key x) (VInt 0) \<noteq> Inr True"
proof (cases items)
  case Nil
  then show ?thesis by simp
next
  case (Cons m rest)
  then have "max_loop key m (key m) rest = Inr w" using assms(1) by (simp add: py_max_def)
  then have "\<forall>x\<in>set (m # rest). py_gt (key x) (VInt 0) \<noteq> Inr True"
    using assms(2) by (rule max_loop_zero_bound)
  then show ?thesis using Cons by simp
qed

lemma max_loop_keeps:
  assumes "\<forall>x\<in>set items. py_gt (key x) v = Inr False"
  shows "max_loop key m v items = Inr m"
  using assms by (induction items) simp_all

section \<open>The analyzer\<close>

lemma analyze_results_Inr:
  assumes "analyze_results all_results = Inr a"
  shows "py_max (\<lambda>x. safe_get (snd x) ''pct_correct_dogs'') all_results = Inr (best_dogs a)"
    and "py_max (\<lambda>x. safe_get (snd x) ''pct_correct_breed'') all_results = Inr (best_breeds a)"
    and "py_max (\<lambda>x. safe_get (snd x) ''pct_correct_notdogs'') all_results = Inr (best_notdogs a)"
    and "py_max (\<lambda>x. safe_get (snd x) ''pct_match'') all_results = Inr (best_overall a)"
    and "last (analysis_printed a) = CHR 0x0A # ''RECOMMENDED MODEL: '' @ upper (fst (best_overall a))"
  using assms by (auto simp: analyze_results_def bind_err_def split: sum.splits)

lemma safe_get_None: "safe_get None key = VInt 0"
  by (simp add: safe_get_def truthy_def)

lemma digit_char_0: "digit_char 0 = CHR ''0''"
  by (simp add: digit_char_def)

lemma format_1f_zero: "format_1f (VInt 0) = Inr ''0.0''"
  by (simp add: format_1f_def float_of_int_def round_double_def format_float_1f_def
      round_half_even_def digit_char_0)

lemma py_max_all_absent:
  assumes "all_results \<noteq> []" and "\<forall>x\<in>set all_results. snd x = None"
  shows "py_max (\<lambda>x. safe_get (snd x) key) all_results = Inr (hd all_results)"
proof (cases all_results)
  case Nil
  with assms(1) show ?thesis by simp
next
  case (Cons m rest)
  have "\<forall>x\<in>set rest. py_gt (safe_get (snd x) key) (safe_get (snd m) key) = Inr False"
    using assms(2) Cons by (simp add: safe_get_None py_gt_def)
  then have "max_loop (\<lambda>x. safe_get (snd x) key) m (safe_get (snd m) key) rest = Inr m"
    by (rule max_loop_keeps)
  then show ?thesis using Cons by (simp add: py_max_def)
qed

lemma analyze_all_absent:
  assumes "all_results \<noteq> []" and "\<forall>x\<in>set all_results. snd x = None"
  shows "\<exists>a. analyze_results all_results = Inr a \<and> best_dogs a = hd all_results
           \<and> best_breeds a = hd all_results \<and> best_notdogs a = hd all_results
           \<and> best_overall a = hd all_results"
proof -
  have "snd (hd all_results) = None" using assms by simp
  then have "\<And>label key. best_line label (hd all_results) key
               = Inr (label @ upper (fst (hd all_results)) @ '' ('' @ ''0.0'' @ ''%)'')"
    by (simp add: best_line_def safe_get_None format_1f_zero bind_err_def)
  then show ?thesis
    by (simp add: analyze_results_def py_max_all_absent [OF assms] bind_err_def)
qed

text \<open>
  Claim C4, as amended. A model whose run result is absent counts as 0 in every category. It is
  selected as the winner of a category only when no model has a value greater than 0 in that
  category; in particular, when all results are absent the first model wins every category.
\<close>

theorem absent_winner:
  "(\<forall>a. analyze_results all_results = Inr a \<longrightarrow>
      (snd (best_dogs a) = None \<longrightarrow>
         (\<forall>x\<in>set all_results. py_gt (safe_get (snd x) ''pct_correct_dogs'') (VInt 0) \<noteq> Inr True))
    \<and> (snd (best_breeds a) = None \<longrightarrow>
         (\<forall>x\<in>set all_results. py_gt (safe_get (snd x) ''pct_correct_breed'') (VInt 0) \<noteq> Inr True))
    \<and> (snd (best_notdogs a) = None \<longrightarrow>
         (\<forall>x\<in>set all_results. py_gt (safe_get (snd x) ''pct_correct_notdogs'') (VInt 0) \<noteq> Inr True))
    \<and> (snd (best_overall a) = None \<longrightarrow>
         (\<forall>x\<in>set all_results. py_gt (safe_get (snd x) ''pct_match'') (VInt 0) \<noteq> Inr True)))
   \<and> (all_results \<noteq> [] \<and> (\<forall>x\<in>set all_results. snd x = None) \<longrightarrow>
        (\<exists>a. analyze_results all_results = Inr a \<and> best_dogs a = hd all_results
           \<and> best_breeds a = hd all_results \<and> best_notdogs a = hd all_results
           \<and> best_overall a = hd all_results))"
proof (intro conjI allI impI)
  fix a assume a: "analyze_results all_results = Inr a" and n: "snd (best_dogs a) = None"
  show "\<forall>x\<in>set all_results. py_gt (safe_get (snd x) ''pct_correct_dogs'') (VInt 0) \<noteq> Inr True"
    using analyze_results_Inr(1) [OF a]
    by (rule py_max_zero_bound) (simp add: n safe_get_None)
next
  fix a assume a: "analyze_results all_results = Inr a" and n: "snd (best_breeds a) = None"
  show "\<forall>x\<in>set all_results. py_gt (safe_get (snd x) ''pct_correct_breed'') (VInt 0) \<noteq> Inr True"
    using analyze_results_Inr(2) [OF a]
    by (rule py_max_zero_bound) (simp add: n safe_get_None)
next
  fix a assume a: "analyze_results all_results = Inr a" and n: "snd (best_notdogs a) = None"
  show "\<forall>x\<in>set all_results. py_gt (safe_get (snd x) ''pct_correct_notdogs'') (VInt 0) \<noteq> Inr True"
    using analyze_results_Inr(3) [OF a]
    by (rule py_max_zero_bound) (simp add: n safe_get_None)
next
  fix a assume a: "analyze_results all_results = Inr a" and n: "snd (best_overall a) = None"
  show "\<forall>x\<in>set all_results. py_gt (safe_get (snd x) ''pct_match'') (VInt 0) \<noteq> Inr True"
    using analyze_results_Inr(4) [OF a]
    by (rule py_max_zero_bound) (simp add: n safe_get_None)
next
  assume "all_results \<noteq> [] \<and> (\<forall>x\<in>set all_results. snd x = None)"
  then show "\<exists>a. analyze_results all_results = Inr a \<and> best_dogs a = hd all_results
           \<and> best_breeds a = hd all_results \<and> best_notdogs a = hd all_results
           \<and> best_overall a = hd all_results"
    using analyze_all_absent by blast
qed

section \<open>Totality and repeated application\<close>

lemma distinct_dict_set:
  "distinct (dict_keys d) \<Longrightarrow> distinct (dict_keys (dict_set d k v))"
proof (induction d k v rule: dict_set.induct)
  case (1 k v)
  then show ?case by (simp add: dict_keys_def)
next
  case (2 k' v' d k v)
  show ?case
  proof (cases "k' = k")
    case True
    with 2 show ?thesis by (simp add: dict_keys_def)
  next
    case False
    have "set (dict_keys (dict_set d k v)) = insert k (set (dict_keys d))"
      by (rule keys_dict_set)
    then show ?thesis using 2 False by (auto simp: dict_keys_def)
  qed
qed

lemma updated_simps:
  "updated st st" "updated st (dict_set st k v)" "updated st (store_count st key parts)"
  by (auto simp: updated_def store_count_def split: sum.splits)

lemma process_line_stats:
  assumes "process_line irs st l = Inr f"
  shows "updated st (flow_stats f)"
  using assms
  by (auto simp: process_line_def Let_def flow_stats_def updated_simps split: if_splits sum.splits)

lemma process_line_distinct:
  assumes "process_line irs st l = Inr f" and "distinct (dict_keys st)"
  shows "distinct_keys f"
  using process_line_stats [OF assms(1)] assms(2)
  by (auto simp: distinct_keys_def updated_def distinct_dict_set)

lemma scan_lines_distinct:
  assumes "scan_lines f ls = Inr g" and "distinct_keys f"
  shows "distinct_keys g"
  using assms
proof (induction ls arbitrary: f)
  case Nil
  then show ?case by simp
next
  case (Cons l ls)
  show ?case
  proof (cases f)
    case (Stop st)
    with Cons.prems show ?thesis by simp
  next
    case (Next irs st)
    obtain f' where f': "process_line irs st l = Inr f'" using process_line_total by blast
    have "distinct (dict_keys st)" using Cons.prems(2) Next by (simp add: distinct_keys_def flow_stats_def)
    with f' have "distinct_keys f'" by (rule process_line_distinct)
    moreover have "scan_lines f' ls = Inr g" using Cons.prems(1) Next f' by simp
    ultimately show ?thesis using Cons.IH by blast
  qed
qed

lemma float_eq_refl: "x \<noteq> NaN \<Longrightarrow> float_eq x x"
  by (cases x) (simp_all add: float_eq_def)

lemma py_eq_refl: "v \<noteq> VFloat NaN \<Longrightarrow> py_eq v v"
  by (cases v) (auto simp: py_eq_def float_eq_refl)

lemma dict_eq_refl:
  assumes "distinct (dict_keys d)" and "nan_free d"
  shows "dict_eq d d"
proof -
  have "\<And>k v. (k, v) \<in> set d \<Longrightarrow> (case map_of d k of None \<Rightarrow> False | Some w \<Rightarrow> py_eq v w)"
  proof -
    fix k v assume kv: "(k, v) \<in> set d"
    then have "map_of d k = Some v" using assms(1) by (simp add: dict_keys_def)
    moreover have "v \<noteq> VFloat NaN" using assms(2) kv by (auto simp: nan_free_def list_all_iff)
    ultimately show "case map_of d k of None \<Rightarrow> False | Some w \<Rightarrow> py_eq v w"
      by (simp add: py_eq_refl)
  qed
  then show ?thesis by (auto simp: dict_eq_def list_all_iff)
qed

text \<open>
  Claim C9, as amended. \<^verbatim>\<open>extract_statistics\<close> is total: for every input text it returns a
  mapping and raises no error (a line of unexpected shape leaves the statistics as they are, a
  failed conversion is passed over or stored as text). Applied again to the same text it
  returns the same keys, in the same order, with the same values; the two mappings compare
  equal under \<^verbatim>\<open>==\<close> whenever no stored value is NaN.
\<close>

theorem extract_statistics_total:
  "\<exists>m. extract_statistics output_text = Inr m
       \<and> (\<forall>m'. extract_statistics output_text = Inr m' \<longrightarrow>
             m' = m \<and> (nan_free m \<longrightarrow> dict_eq m m'))"
proof -
  obtain g where g: "scan_lines (Next False []) (split_char (CHR 0x0A) output_text) = Inr g"
    using scan_lines_total by blast
  have "distinct_keys (Next False [])" by (simp add: distinct_keys_def flow_stats_def dict_keys_def)
  with g have "distinct_keys g" by (rule scan_lines_distinct)
  then have d: "distinct (dict_keys (flow_stats g))" by (simp add: distinct_keys_def)
  have e: "extract_statistics output_text = Inr (flow_stats g)"
    using g by (simp add: extract_statistics_def)
  show ?thesis using e d dict_eq_refl by auto
qed

text \<open>
  A text whose lines take the failing conversion of a count, the successful one, and the
  percentage stored as text.
\<close>

theorem extract_statistics_total_witness:
  "extract_statistics
     (section_marker @ [CHR 0x0A] @ ''N Images: many'' @ [CHR 0x0A] @ ''N Dog Images: 30''
        @ [CHR 0x0A] @ ''pct match: n/a%'')
     = Inr [(''n_dogs'', VInt 30), (''pct_match'', VStr ''n/a'')]
   \<and> dict_eq [(''n_dogs'', VInt 30), (''pct_match'', VStr ''n/a'')]
              [(''n_dogs'', VInt 30), (''pct_match'', VStr ''n/a'')]"
proof -
  define t where "t = section_marker @ [CHR 0x0A] @ ''N Images: many'' @ [CHR 0x0A]
                        @ ''N Dog Images: 30'' @ [CHR 0x0A] @ ''pct match: n/a%''"
  define r where "r = [(''n_dogs'', VInt 30), (''pct_match'', VStr ''n/a'')]"
  have ev: "extract_statistics t = Inr r" unfolding t_def r_def by code_simp
  have nf: "nan_free r" unfolding r_def by code_simp
  from extract_statistics_total [of t]
  obtain m where m: "extract_statistics t = Inr m
      \<and> (\<forall>m'. extract_statistics t = Inr m' \<longrightarrow> m' = m \<and> (nan_free m \<longrightarrow> dict_eq m m'))" ..
  from m ev have mr: "m = r" by simp
  from m ev have "r = m \<and> (nan_free m \<longrightarrow> dict_eq m r)" by blast
  with mr nf have deq: "dict_eq r r" by blast
  from ev deq show ?thesis unfolding t_def r_def by (rule conjI)
qed

text \<open>
  The claim as first stated fails where a percentage reads \<^verbatim>\<open>nan\<close>: each call stores a
  NaN, and a mapping with a NaN does not compare equal to the mapping of the other call.
\<close>

theorem extract_statistics_nan_counterexample:
  "extract_statistics (section_marker @ [CHR 0x0A] @ ''pct match: nan%'')
     = Inr [(''pct_match'', VFloat NaN)]
   \<and> \<not> dict_eq [(''pct_match'', VFloat NaN)] [(''pct_match'', VFloat NaN)]"
  by code_simp

lemma rank_less_irrefl: "\<not> rank_less a a"
  by (simp add: rank_less_def)

lemma rank_less_mixed:
  "rank_less a b \<Longrightarrow> \<not> rank_less c b \<Longrightarrow> rank_less a c"
  "\<not> rank_less b a \<Longrightarrow> rank_less b c \<Longrightarrow> \<not> rank_less c a"
  by (auto simp: rank_less_def)

lemma py_gt_plain:
  assumes "plain a" and "plain b"
  shows "py_gt a b = Inr (rank_less (rank b) (rank a))"
proof (rule py_gt_rank)
  show "a \<noteq> VFloat NaN" "\<forall>s. a \<noteq> VStr s" using assms(1) by (auto simp: plain_def)
  show "b \<noteq> VFloat NaN" "\<forall>s. b \<noteq> VStr s" using assms(2) by (auto simp: plain_def)
qed

lemma max_loop_first_max:
  assumes "\<forall>x\<in>set (pre @ rest). plain (key x)" and "i < length pre"
      and "\<forall>j<length pre. \<not> rank_less (rank (key (pre ! i))) (rank (key (pre ! j)))"
      and "\<forall>j<i. rank_less (rank (key (pre ! j))) (rank (key (pre ! i)))"
  shows "\<exists>w. max_loop key (pre ! i) (key (pre ! i)) rest = Inr w \<and> first_max key (pre @ rest) w"
  using assms
proof (induction rest arbitrary: pre i)
  case Nil
  have pl: "\<forall>j<length pre. plain (key (pre ! j))" using Nil.prems(1) by simp
  have "first_max key pre (pre ! i)"
    unfolding first_max_def
  proof (intro exI [of _ i] conjI allI impI)
    show "i < length pre" by (rule Nil.prems(2))
    show "pre ! i = pre ! i" by simp
  next
    fix j assume "j < length pre"
    then show "py_gt (key (pre ! j)) (key (pre ! i)) = Inr False"
      using pl Nil.prems(2,3) by (simp add: py_gt_plain)
  next
    fix j assume "j < i"
    then show "py_gt (key (pre ! i)) (key (pre ! j)) = Inr True"
      using pl Nil.prems(2,4) by (simp add: py_gt_plain)
  qed
  then show ?case by simp
next
  case (Cons x rest)
  let ?pre = "pre @ [x]"
  have plx: "plain (key x)" and pli: "plain (key (pre ! i))"
    using Cons.prems(1,2) by simp_all
  have all: "\<forall>y\<in>set (?pre @ rest). plain (key y)" using Cons.prems(1) by simp
  have gt: "py_gt (key x) (key (pre ! i)) = Inr (rank_less (rank (key (pre ! i))) (rank (key x)))"
    using plx pli by (rule py_gt_plain)
  show ?case
  proof (cases "rank_less (rank (key (pre ! i))) (rank (key x))")
    case True
    have i': "length pre < length ?pre" by simp
    have nth: "?pre ! length pre = x" by simp
    have a: "\<forall>j<length ?pre. \<not> rank_less (rank (key (?pre ! length pre))) (rank (key (?pre ! j)))"
    proof (intro allI impI)
      fix j assume "j < length ?pre"
      then consider "j < length pre" | "j = length pre" by fastforce
      then show "\<not> rank_less (rank (key (?pre ! length pre))) (rank (key (?pre ! j)))"
      proof cases
        case 1
        then have "\<not> rank_less (rank (key (pre ! i))) (rank (key (pre ! j)))"
          using Cons.prems(3) by simp
        then have "\<not> rank_less (rank (key x)) (rank (key (pre ! j)))"
          using True by (rule rank_less_mixed(2))
        then show ?thesis using 1 by (simp add: nth_append)
      next
        case 2
        then show ?thesis by (simp add: rank_less_irrefl)
      qed
    qed
    have b: "\<forall>j<length pre. rank_less (rank (key (?pre ! j))) (rank (key (?pre ! length pre)))"
    proof (intro allI impI)
      fix j assume j: "j < length pre"
      then have "\<not> rank_less (rank (key (pre ! i))) (rank (key (pre ! j)))"
        using Cons.prems(3) by simp
      moreover have "rank_less (rank (key (pre ! j))) (rank (key x))
                     \<or> \<not> rank_less (rank (key (pre ! j))) (rank (key x))" by simp
      ultimately have "rank_less (rank (key (pre ! j))) (rank (key x))"
        using True by (auto simp: rank_less_def)
      then show "rank_less (rank (key (?pre ! j))) (rank (key (?pre ! length pre)))"
        using j by (simp add: nth_append)
    qed
    have "\<exists>w. max_loop key (?pre ! length pre) (key (?pre ! length pre)) rest = Inr w
              \<and> first_max key (?pre @ rest) w"
      using all i' a b by (rule Cons.IH)
    then show ?thesis using gt True by simp
  next
    case False
    have i': "i < length ?pre" using Cons.prems(2) by simp
    have nth: "?pre ! i = pre ! i" using Cons.prems(2) by (simp add: nth_append)
    have a: "\<forall>j<length ?pre. \<not> rank_less (rank (key (?pre ! i))) (rank (key (?pre ! j)))"
    proof (intro allI impI)
      fix j assume "j < length ?pre"
      then consider "j < length pre" | "j = length pre" by fastforce
      then show "\<not> rank_less (rank (key (?pre ! i))) (rank (key (?pre ! j)))"
      proof cases
        case 1
        then show ?thesis using Cons.prems(3) nth by (simp add: nth_append)
      next
        case 2
        then show ?thesis using False nth by simp
      qed
    qed
    have b: "\<forall>j<i. rank_less (rank (key (?pre ! j))) (rank (key (?pre ! i)))"
      using Cons.prems(2,4) by (simp add: nth_append)
    have "\<exists>w. max_loop key (?pre ! i) (key (?pre ! i)) rest = Inr w
              \<and> first_max key (?pre @ rest) w"
      using all i' a b by (rule Cons.IH)
    then show ?thesis using gt False nth by simp
  qed
qed

lemma py_max_first_max:
  assumes "items \<noteq> []" and "\<forall>x\<in>set items. plain (key x)"
  shows "\<exists>w. py_max key items = Inr w \<and> first_max key items w"
proof (cases items)
  case Nil
  with assms(1) show ?thesis by simp
next
  case (Cons m rest)
  have "\<exists>w. max_loop key ([m] ! 0) (key ([m] ! 0)) rest = Inr w \<and> first_max key ([m] @ rest) w"
  proof (rule max_loop_first_max)
    show "\<forall>x\<in>set ([m] @ rest). plain (key x)" using assms(2) Cons by simp
    show "0 < length [m]" by simp
    show "\<forall>j<length [m]. \<not> rank_less (rank (key ([m] ! 0))) (rank (key ([m] ! j)))"
      by (simp add: rank_less_irrefl)
    show "\<forall>j<0. rank_less (rank (key ([m] ! j))) (rank (key ([m] ! 0)))" by simp
  qed
  then show ?thesis using Cons by (simp add: py_max_def)
qed

text \<open>All three runs failed: the first model wins every category with the value 0.\<close>

theorem absent_winner_witness:
  "\<exists>a. analyze_results [(''vgg'', None), (''alexnet'', None), (''resnet'', None)] = Inr a
       \<and> best_overall a = (''vgg'', None)
       \<and> (\<forall>x\<in>set [(''vgg'', None), (''alexnet'', None), (''resnet'', None)].
              py_gt (safe_get (snd x) ''pct_match'') (VInt 0) \<noteq> Inr True)"
proof -
  define r :: results where "r = [(''vgg'', None), (''alexnet'', None), (''resnet'', None)]"
  have h: "r \<noteq> [] \<and> (\<forall>x\<in>set r. snd x = None)" by (simp add: r_def)
  note T = absent_winner [of r]
  from T h obtain a where a: "analyze_results r = Inr a" and b: "best_overall a = hd r"
    by blast
  from b have b': "best_overall a = (''vgg'', None)" by (simp add: r_def)
  then have "snd (best_overall a) = None" by simp
  with T a have "\<forall>x\<in>set r. py_gt (safe_get (snd x) ''pct_match'') (VInt 0) \<noteq> Inr True"
    by blast
  with a b' show ?thesis unfolding r_def by blast
qed

text \<open>
  The claim as first stated fails when the first model is absent and the others score 0: the
  absent model wins although not all results are absent.
\<close>

theorem absent_winner_counterexample:
  "map_sum id best_breeds
     (analyze_results
        [(''vgg'', None),
         (''alexnet'', Some [(''pct_correct_breed'', VFloat (Finite False 0))]),
         (''resnet'', Some [(''pct_correct_breed'', VFloat (Finite False 0))])])
   = Inr (''vgg'', None)"
  by (simp add: analyze_results_def bind_err_def py_max_def safe_get_def truthy_def
      dict_get_default_def py_gt_def float_gt_def exact_of_int_def signed_def best_line_def
      format_1f_zero)

lemma plain_safe_get:
  assumes "plain_metrics all_results" and "x \<in> set all_results" and "key \<in> set console_keys"
  shows "plain (safe_get (snd x) key)"
proof (cases "snd x")
  case None
  then show ?thesis by (simp add: safe_get_def truthy_def plain_def)
next
  case (Some st)
  show ?thesis
  proof (cases "map_of st key")
    case None
    then show ?thesis using Some by (simp add: safe_get_def truthy_def dict_get_default_def plain_def)
  next
    case (Some v)
    have "case v of VFloat x \<Rightarrow> x \<noteq> NaN | _ \<Rightarrow> False"
      using assms \<open>snd x = Some st\<close> Some by (fastforce simp: plain_metrics_def)
    then show ?thesis
      using \<open>snd x = Some st\<close> Some
      by (cases v) (simp_all add: safe_get_def truthy_def dict_get_default_def plain_def)
  qed
qed

lemma format_plain: "plain v \<Longrightarrow> \<exists>s. format_1f v = Inr s"
  by (cases v) (simp_all add: plain_def format_1f_zero, simp add: format_1f_def)

lemma first_max_mem: "first_max key items w \<Longrightarrow> w \<in> set items"
  by (auto simp: first_max_def)

lemma best_line_plain:
  assumes "plain (safe_get (snd w) key)"
  shows "\<exists>l. best_line label w key = Inr l"
  using format_plain [OF assms] by (auto simp: best_line_def bind_err_def)

lemma analyze_results_plain:
  assumes "all_results \<noteq> []" and "plain_metrics all_results"
  shows "\<exists>a. analyze_results all_results = Inr a
           \<and> first_max (\<lambda>x. safe_get (snd x) ''pct_correct_dogs'') all_results (best_dogs a)
           \<and> first_max (\<lambda>x. safe_get (snd x) ''pct_correct_breed'') all_results (best_breeds a)
           \<and> first_max (\<lambda>x. safe_get (snd x) ''pct_correct_notdogs'') all_results (best_notdogs a)
           \<and> first_max (\<lambda>x. safe_get (snd x) ''pct_match'') all_results (best_overall a)
           \<and> last (analysis_printed a)
               = CHR 0x0A # ''RECOMMENDED MODEL: '' @ upper (fst (best_overall a))"
proof -
  have pl: "\<And>key. key \<in> set console_keys \<Longrightarrow> \<forall>x\<in>set all_results. plain (safe_get (snd x) key)"
    using assms(2) plain_safe_get by blast
  have k: "''pct_correct_dogs'' \<in> set console_keys" "''pct_correct_breed'' \<in> set console_keys"
          "''pct_correct_notdogs'' \<in> set console_keys" "''pct_match'' \<in> set console_keys"
    by (simp_all add: console_keys_def)
  obtain bd where bd: "py_max (\<lambda>x. safe_get (snd x) ''pct_correct_dogs'') all_results = Inr bd"
      "first_max (\<lambda>x. safe_get (snd x) ''pct_correct_dogs'') all_results bd"
    using py_max_first_max [OF assms(1) pl [OF k(1)]] by blast
  obtain bb where bb: "py_max (\<lambda>x. safe_get (snd x) ''pct_correct_breed'') all_results = Inr bb"
      "first_max (\<lambda>x. safe_get (snd x) ''pct_correct_breed'') all_results bb"
    using py_max_first_max [OF assms(1) pl [OF k(2)]] by blast
  obtain bn where bn: "py_max (\<lambda>x. safe_get (snd x) ''pct_correct_notdogs'') all_results = Inr bn"
      "first_max (\<lambda>x. safe_get (snd x) ''pct_correct_notdogs'') all_results bn"
    using py_max_first_max [OF assms(1) pl [OF k(3)]] by blast
  obtain bo where bo: "py_max (\<lambda>x. safe_get (snd x) ''pct_match'') all_results = Inr bo"
      "first_max (\<lambda>x. safe_get (snd x) ''pct_match'') all_results bo"
    using py_max_first_max [OF assms(1) pl [OF k(4)]] by blast
  obtain l1 where l1: "best_line ''Best at identifying dogs: '' bd ''pct_correct_dogs'' = Inr l1"
    using best_line_plain pl [OF k(1)] first_max_mem [OF bd(2)] by blast
  obtain l2 where l2: "best_line ''Best at breed classification: '' bb ''pct_correct_breed'' = Inr l2"
    using best_line_plain pl [OF k(2)] first_max_mem [OF bb(2)] by blast
  obtain l3 where l3: "best_line ''Best at identifying non-dogs: '' bn ''pct_correct_notdogs'' = Inr l3"
    using best_line_plain pl [OF k(3)] first_max_mem [OF bn(2)] by blast
  obtain l4 where l4: "best_line ''Best overall match rate: '' bo ''pct_match'' = Inr l4"
    using best_line_plain pl [OF k(4)] first_max_mem [OF bo(2)] by blast
  show ?thesis
    using bd bb bn bo l1 l2 l3 l4 by (simp add: analyze_results_def bind_err_def)
qed

text \<open>
  Claim C3, as amended. Let the collection be non-empty, with ASCII model names, and let every
  value recorded under the four metrics be a float other than NaN. Then \<^verbatim>\<open>analyze_results\<close>
  returns, and for each of the four metrics the model it selects is the first maximum in the
  order of the collection: no model has a greater value, and every model before it has a
  smaller one. An absent result, an empty result and a missing key count as 0. The last line
  printed recommends the winner of \<^verbatim>\<open>pct_match\<close>.
\<close>

theorem analyze_results_first_max:
  assumes "all_results \<noteq> []" and "plain_metrics all_results"
      and "\<forall>x\<in>set all_results. is_ascii (fst x)"
  shows "(\<exists>a. analyze_results all_results = Inr a
           \<and> first_max (\<lambda>x. safe_get (snd x) ''pct_correct_dogs'') all_results (best_dogs a)
           \<and> first_max (\<lambda>x. safe_get (snd x) ''pct_correct_breed'') all_results (best_breeds a)
           \<and> first_max (\<lambda>x. safe_get (snd x) ''pct_correct_notdogs'') all_results (best_notdogs a)
           \<and> first_max (\<lambda>x. safe_get (snd x) ''pct_match'') all_results (best_overall a)
           \<and> last (analysis_printed a)
               = CHR 0x0A # ''RECOMMENDED MODEL: '' @ upper (fst (best_overall a)))
         \<and> safe_get None key = VInt 0 \<and> safe_get (Some []) key = VInt 0
         \<and> (map_of st key = None \<longrightarrow> safe_get (Some st) key = VInt 0)"
proof -
  have "safe_get (Some []) key = VInt 0" by (simp add: safe_get_def truthy_def)
  moreover have "map_of st key = None \<longrightarrow> safe_get (Some st) key = VInt 0"
    by (simp add: safe_get_def truthy_def dict_get_default_def)
  ultimately show ?thesis
    using analyze_results_plain [OF assms(1,2)] safe_get_None by blast
qed

text \<open>
  Two models tie at 90.0 for the match rate and the third run failed: the first of the two,
  \<^verbatim>\<open>vgg\<close>, is recommended.
\<close>

theorem analyze_results_first_max_witness:
  "\<exists>a. analyze_results
          [(''vgg'', Some [(''pct_match'', VFloat (Finite False 90))]),
           (''alexnet'', Some [(''pct_match'', VFloat (Finite False 90))]),
           (''resnet'', None)] = Inr a
       \<and> first_max (\<lambda>x. safe_get (snd x) ''pct_match'')
            [(''vgg'', Some [(''pct_match'', VFloat (Finite False 90))]),
             (''alexnet'', Some [(''pct_match'', VFloat (Finite False 90))]),
             (''resnet'', None)] (best_overall a)
       \<and> fst (best_overall a) = ''vgg''
       \<and> last (analysis_printed a) = CHR 0x0A # ''RECOMMENDED MODEL: VGG''"
proof -
  define r :: results where
    "r = [(''vgg'', Some [(''pct_match'', VFloat (Finite False 90))]),
          (''alexnet'', Some [(''pct_match'', VFloat (Finite False 90))]),
          (''resnet'', None)]"
  have h1: "r \<noteq> []" by (simp add: r_def)
  have h2: "plain_metrics r" by (simp add: r_def plain_metrics_def console_keys_def)
  have h3: "\<forall>x\<in>set r. is_ascii (fst x)" by (simp add: r_def is_ascii_def)
  have ev: "map_sum id (\<lambda>a. fst (best_overall a)) (analyze_results r) = Inr ''vgg''"
    by (simp add: r_def analyze_results_def bind_err_def py_max_def safe_get_def truthy_def
        dict_get_default_def py_gt_def float_gt_def exact_of_int_def signed_def best_line_def
        format_1f_def float_of_int_def round_double_def)
  have up: "upper ''vgg'' = ''VGG''" by code_simp
  from analyze_results_first_max [OF h1 h2 h3]
  obtain a where a: "analyze_results r = Inr a"
    and fm: "first_max (\<lambda>x. safe_get (snd x) ''pct_match'') r (best_overall a)"
    and rec: "last (analysis_printed a) = CHR 0x0A # ''RECOMMENDED MODEL: '' @ upper (fst (best_overall a))"
    by blast
  from ev a have w: "fst (best_overall a) = ''vgg''" by simp
  with rec up have "last (analysis_printed a) = CHR 0x0A # ''RECOMMENDED MODEL: VGG''" by simp
  with a fm w show ?thesis unfolding r_def by blast
qed

text \<open>
  The claim as first stated fails when a percentage was stored as text, as the extractor does
  for \<^verbatim>\<open>pct match: n/a%\<close>: the comparison of the text with a number raises a TypeError and
  no model is selected.
\<close>

theorem analyze_results_text_counterexample:
  "analyze_results
     [(''vgg'', Some [(''pct_match'', VStr ''n/a'')]),
      (''alexnet'', Some [(''pct_match'', VFloat (Finite False 90))]),
      (''resnet'', None)] = Inl TypeError
   \<and> extract_statistics (section_marker @ [CHR 0x0A] @ ''pct match: n/a%'')
       = Inr [(''pct_match'', VStr ''n/a'')]"
proof (rule conjI)
  show "analyze_results
     [(''vgg'', Some [(''pct_match'', VStr ''n/a'')]),
      (''alexnet'', Some [(''pct_match'', VFloat (Finite False 90))]),
      (''resnet'', None)] = Inl TypeError"
    by (simp add: analyze_results_def bind_err_def py_max_def safe_get_def truthy_def
        dict_get_default_def py_gt_def float_gt_def exact_of_int_def signed_def)
  show "extract_statistics (section_marker @ [CHR 0x0A] @ ''pct match: n/a%'')
       = Inr [(''pct_match'', VStr ''n/a'')]"
    by code_simp
qed

end
